theory Spec2Isabelle
  imports Complex_Main "HOL-Library.Char_ord" "HOL-Library.List_Lexorder"
begin

section \<open>The generation engine of c3nft.py\<close>

text \<open>
  The engine of \<^verbatim>\<open>src/c3nft.py\<close> (\<^verbatim>\<open>_weighted_choice\<close>, \<^verbatim>\<open>_merge_mapping_sets\<close>,
  \<^verbatim>\<open>_is_excluded_by_pairs\<close>, \<^verbatim>\<open>run_generation\<close>) as HOL functions. Python identifiers
  that start with an underscore lose it. Layer names, trait names and "Layer:Trait" keys
  are strings; rarities are Python integers (\<open>int\<close>).
\<close>

subsection \<open>The random source\<close>

text \<open>
  The engine draws from the process-wide generator of Python's \<^verbatim>\<open>random\<close> module. One
  iteration of the layer loop makes at most one call of \<^verbatim>\<open>random.random()\<close> for the
  presence test and at most one call of \<^verbatim>\<open>_weighted_choice\<close>, which makes either one
  \<^verbatim>\<open>random.choice\<close> or one \<^verbatim>\<open>random.uniform\<close>. The values the generator hands out in
  one iteration are the fields of a \<open>draw\<close>:
  \<^item> \<open>presence_draw\<close>: the result of \<^verbatim>\<open>random.random()\<close> at line 1069, a float in [0,1);
  \<^item> \<open>uniform_draw\<close>: the result of the \<^verbatim>\<open>random()\<close> inside \<^verbatim>\<open>random.uniform(0, total)\<close>,
    which CPython computes as \<^verbatim>\<open>0 + (total - 0) * random()\<close>;
  \<^item> \<open>choice_draw\<close>: the raw value behind \<^verbatim>\<open>random.choice(options)\<close>, reduced to an index
    below \<open>length options\<close>.
  Floats are modelled by the rationals they denote; the comparisons of the source are
  exact on them for the thresholds 0.0 and 1.0 and for integer-valued weights.
\<close>

record draw =
  presence_draw :: rat
  uniform_draw :: rat
  choice_draw :: nat

definition valid_draw :: "draw \<Rightarrow> bool" where
  "valid_draw d = (0 \<le> presence_draw d \<and> presence_draw d < 1
                   \<and> 0 \<le> uniform_draw d \<and> uniform_draw d < 1)"

subsection \<open>Weighted choice\<close>

text \<open>
  \<^verbatim>\<open>
  def _weighted_choice(options, weights):
      total = sum(w for w in weights if w > 0)
      if total <= 0:
          return random.choice(options) if options else None
      r = random.uniform(0, total)
      upto = 0.0
      for opt, w in zip(options, weights):
          if w <= 0:
              continue
          if upto + w >= r:
              return opt
          upto += w
      return options[-1] if options else None
  \<close>
\<close>

fun walk_weights :: "(string \<times> int) list \<Rightarrow> rat \<Rightarrow> rat \<Rightarrow> string option" where
  "walk_weights [] upto_w r = None"
| "walk_weights ((opt, w) # rest) upto_w r =
     (if w \<le> 0 then walk_weights rest upto_w r
      else if upto_w + of_int w \<ge> r then Some opt
      else walk_weights rest (upto_w + of_int w) r)"

definition random_choice :: "string list \<Rightarrow> draw \<Rightarrow> string" where
  "random_choice options d = options ! (choice_draw d mod length options)"

definition weighted_choice :: "string list \<Rightarrow> int list \<Rightarrow> draw \<Rightarrow> string option" where
  "weighted_choice options weights d =
     (let total = sum_list (filter (\<lambda>w. w > 0) weights) in
      if total \<le> 0 then (if options \<noteq> [] then Some (random_choice options d) else None)
      else
        (let r = of_int total * uniform_draw d in
         case walk_weights (zip options weights) 0 r of
           Some opt \<Rightarrow> Some opt
         | None \<Rightarrow> (if options \<noteq> [] then Some (last options) else None)))"



subsection \<open>Keys\<close>

text \<open>
  A key is the string \<^verbatim>\<open>f"{layer}:{trait}"\<close>. The source takes a key apart with
  \<^verbatim>\<open>la, ta = a.split(":", 1)\<close>: the split is at the first colon, and a key without a colon
  makes the unpacking raise \<^verbatim>\<open>ValueError\<close>, which both scans of the include pairs catch
  with \<^verbatim>\<open>continue\<close>. \<open>split_key\<close> returns \<open>None\<close> where the unpacking raises.
\<close>

definition mk_key :: "string \<Rightarrow> string \<Rightarrow> string" where
  "mk_key layer trait = layer @ '':'' @ trait"

definition split_key :: "string \<Rightarrow> (string \<times> string) option" where
  "split_key k =
     (if CHR '':'' \<in> set k
      then Some (takeWhile (\<lambda>c. c \<noteq> CHR '':'') k, tl (dropWhile (\<lambda>c. c \<noteq> CHR '':'') k))
      else None)"

subsection \<open>Log messages\<close>

text \<open>
  The messages handed to \<^verbatim>\<open>_safe_log\<close>, which swallows every exception of the callback:
  logging never changes the control flow. The compositing warnings (missing image, image
  that fails to load) are not modelled, see \<open>try_body\<close>.
\<close>

datatype log_msg =
    CouldNotReadSavedMappings
  | MappingSetNotFound string
  | InclusionNotFound string string
  | DuplicateAt int
  | Generated int
  | ErrorOn int

subsection \<open>Rule merger\<close>

text \<open>
  The persisted mapping sets are JSON. A rarity value is any JSON value: \<open>IntLike n\<close>
  stands for a value \<open>v\<close> with \<^verbatim>\<open>int(v) == n\<close>, \<open>NotIntLike\<close> for one on which \<^verbatim>\<open>int(v)\<close>
  raises (the source passes over it). An entry of a pair list is kept only if it is a
  list of length 2: \<open>PairList\<close> is a JSON list, \<open>NotAList\<close> anything else. The elements
  of a pair are keys, that is strings, as the editor of mapping sets writes them.
  The rarity dictionaries are association lists in file order; iterating \<^verbatim>\<open>.items()\<close>
  assigns them in that order. \<^verbatim>\<open>saved.get(name)\<close> is \<open>None\<close> for an absent name; \<open>Falsy\<close>
  is a stored value that fails \<^verbatim>\<open>if not m\<close> all the same (an empty object, \<^verbatim>\<open>null\<close>).
\<close>

datatype rarity_value = IntLike int | NotIntLike

datatype pair_entry = PairList "string list" | NotAList

record mapping_set =
  ms_rarities :: "(string \<times> rarity_value) list"
  ms_layer_rarities :: "(string \<times> rarity_value) list"
  ms_include_pairs :: "pair_entry list"
  ms_exclude_pairs :: "pair_entry list"

datatype saved_value = Falsy | MappingSet mapping_set

text \<open>
  \<^verbatim>\<open>configs/saved_mappings.json\<close>: not a file (\<open>saved = {}\<close>, silently), a file that
  \<^verbatim>\<open>json.load\<close> cannot read (\<open>saved = {}\<close> with a warning), or a loaded dictionary.
\<close>

datatype saved_file = NoFile | Unreadable | Loaded "string \<rightharpoonup> saved_value"

record merged_rules =
  trait_rarities :: "string \<rightharpoonup> int"
  layer_rarities :: "string \<rightharpoonup> int"
  include_pairs :: "(string \<times> string) list"
  exclude_pairs :: "(string \<times> string) list"

text \<open>
  The fields of \<^verbatim>\<open>config\<close> that the engine reads and the model uses. A missing
  \<^verbatim>\<open>layer_order\<close>, \<^verbatim>\<open>excluded_layers\<close> or \<^verbatim>\<open>mapping_sets\<close> is the empty list, as
  \<^verbatim>\<open>config.get(..., []) or []\<close> makes it. The canvas size only reaches \<^verbatim>\<open>Image.new\<close>.
\<close>

record config =
  layer_order :: "string list"
  excluded_layers :: "string list"
  mapping_sets :: "string list"
  collection_name :: "string option"
  collection_description :: "string option"

text \<open>
  \<^verbatim>\<open>
  for k, v in (m.get("rarities", {}) or {}).items():
      try:
          trait_rarities[k] = int(v)
      except Exception:
          pass
  \<close>
\<close>

fun overlay_rarities :: "(string \<rightharpoonup> int) \<Rightarrow> (string \<times> rarity_value) list \<Rightarrow> (string \<rightharpoonup> int)" where
  "overlay_rarities acc [] = acc"
| "overlay_rarities acc ((k, v) # kvs) =
     (case v of
        IntLike n \<Rightarrow> overlay_rarities (acc(k \<mapsto> n)) kvs
      | NotIntLike \<Rightarrow> overlay_rarities acc kvs)"

text \<open>
  \<^verbatim>\<open>
  for p in (m.get("include_pairs", []) or []):
      if isinstance(p, list) and len(p) == 2:
          include_pairs.append([p[0], p[1]])
  \<close>
\<close>

fun append_pairs :: "(string \<times> string) list \<Rightarrow> pair_entry list \<Rightarrow> (string \<times> string) list" where
  "append_pairs acc [] = acc"
| "append_pairs acc (PairList [a, b] # ps) = append_pairs (acc @ [(a, b)]) ps"
| "append_pairs acc (p # ps) = append_pairs acc ps"

definition empty_rules :: merged_rules where
  "empty_rules = \<lparr>trait_rarities = Map.empty, layer_rarities = Map.empty,
                  include_pairs = [], exclude_pairs = []\<rparr>"

definition overlay_set :: "merged_rules \<Rightarrow> mapping_set \<Rightarrow> merged_rules" where
  "overlay_set acc m =
     \<lparr>trait_rarities = overlay_rarities (trait_rarities acc) (ms_rarities m),
      layer_rarities = overlay_rarities (layer_rarities acc) (ms_layer_rarities m),
      include_pairs = append_pairs (include_pairs acc) (ms_include_pairs m),
      exclude_pairs = append_pairs (exclude_pairs acc) (ms_exclude_pairs m)\<rparr>"

text \<open>The loop \<^verbatim>\<open>for name in mapping_sets\<close>, on the accumulated rules and the log.\<close>

fun merge_loop :: "(string \<rightharpoonup> saved_value) \<Rightarrow> merged_rules \<times> log_msg list \<Rightarrow> string list
                    \<Rightarrow> merged_rules \<times> log_msg list" where
  "merge_loop saved (acc, lg) [] = (acc, lg)"
| "merge_loop saved (acc, lg) (name # names) =
     (case saved name of
        None \<Rightarrow> merge_loop saved (acc, lg @ [MappingSetNotFound name]) names
      | Some Falsy \<Rightarrow> merge_loop saved (acc, lg @ [MappingSetNotFound name]) names
      | Some (MappingSet m) \<Rightarrow> merge_loop saved (overlay_set acc m, lg) names)"

text \<open>
  \<^verbatim>\<open>
  saved = {}
  if os.path.isfile(mappings_path):
      try:
          with open(mappings_path, "r") as f:
              saved = json.load(f)
      except Exception as e:
          _safe_log(log_callback, f"... Could not read saved_mappings.json: {e}")
  \<close>
\<close>

definition saved_dict :: "saved_file \<Rightarrow> (string \<rightharpoonup> saved_value)" where
  "saved_dict file = (case file of Loaded saved \<Rightarrow> saved | _ \<Rightarrow> Map.empty)"

definition read_warning :: "saved_file \<Rightarrow> log_msg list" where
  "read_warning file = (case file of Unreadable \<Rightarrow> [CouldNotReadSavedMappings] | _ \<Rightarrow> [])"

definition merge_mapping_sets :: "config \<Rightarrow> saved_file \<Rightarrow> merged_rules \<times> log_msg list" where
  "merge_mapping_sets cfg file =
     merge_loop (saved_dict file) (empty_rules, read_warning file) (mapping_sets cfg)"

text \<open>
  The merge in the words of the specification: the mapping sets that are present, in
  list order; per key the last integer written; the pair lists appended.
\<close>

definition present_sets :: "(string \<rightharpoonup> saved_value) \<Rightarrow> string list \<Rightarrow> mapping_set list" where
  "present_sets saved names =
     concat (map (\<lambda>name. case saved name of Some (MappingSet m) \<Rightarrow> [m] | _ \<Rightarrow> []) names)"

definition last_writer :: "(string \<times> rarity_value) list \<Rightarrow> string \<Rightarrow> int option" where
  "last_writer kvs k =
     (case filter (\<lambda>(k', v). k' = k \<and> v \<noteq> NotIntLike) kvs of
        [] \<Rightarrow> None
      | w # ws \<Rightarrow> (case snd (last (w # ws)) of IntLike n \<Rightarrow> Some n | NotIntLike \<Rightarrow> None))"

definition well_formed_pairs :: "pair_entry list \<Rightarrow> (string \<times> string) list" where
  "well_formed_pairs ps =
     concat (map (\<lambda>p. case p of PairList [a, b] \<Rightarrow> [(a, b)] | _ \<Rightarrow> []) ps)"

definition absent_warnings :: "(string \<rightharpoonup> saved_value) \<Rightarrow> string list \<Rightarrow> log_msg list" where
  "absent_warnings saved names =
     concat (map (\<lambda>name. case saved name of Some (MappingSet m) \<Rightarrow> [] | _ \<Rightarrow> [MappingSetNotFound name])
               names)"

subsection \<open>Exclusion test\<close>

text \<open>
  \<^verbatim>\<open>
  def _is_excluded_by_pairs(candidate_key, selected_keys, exclude_pairs):
      if not exclude_pairs:
          return False
      for sk in selected_keys:
          for a, b in exclude_pairs:
              if (candidate_key == a and sk == b) or (candidate_key == b and sk == a):
                  return True
      return False
  \<close>
\<close>

definition is_excluded_by_pairs :: "string \<Rightarrow> string list \<Rightarrow> (string \<times> string) list \<Rightarrow> bool" where
  "is_excluded_by_pairs candidate_key sel_keys ex_pairs =
     (if ex_pairs = [] then False
      else list_ex (\<lambda>sk. list_ex (\<lambda>(a, b). (candidate_key = a \<and> sk = b) \<or> (candidate_key = b \<and> sk = a))
                            ex_pairs) sel_keys)"

subsection \<open>Selection engine: one edition\<close>

text \<open>
  The per-edition state of the layer loop of \<^verbatim>\<open>run_generation\<close> (lines 1056 to 1138):
  the dictionaries \<^verbatim>\<open>selected\<close> and \<^verbatim>\<open>forced_selection\<close>, the list \<^verbatim>\<open>selected_keys\<close>, and the
  warnings logged on the way.
\<close>

record selection =
  selected :: "string \<rightharpoonup> string"
  selected_keys :: "string list"
  forced_selection :: "string \<rightharpoonup> string"
  sel_log :: "log_msg list"

definition empty_selection :: selection where
  "empty_selection = \<lparr>selected = Map.empty, selected_keys = [], forced_selection = Map.empty,
                      sel_log = []\<rparr>"

text \<open>
  The first scan of the include pairs (lines 1079 to 1089): the trait that a selected
  key requires for this layer, taken from the first pair that matches.
  \<^verbatim>\<open>
  required_trait_for_layer = None
  for a, b in include_pairs:
      try:
          la, ta = a.split(":", 1)
          lb, tb = b.split(":", 1)
      except ValueError:
          continue
      if f"{la}:{ta}" in selected_keys and lb == layer:
          required_trait_for_layer = tb
          break
  \<close>
\<close>

fun required_trait_for_layer :: "(string \<times> string) list \<Rightarrow> string list \<Rightarrow> string \<Rightarrow> string option" where
  "required_trait_for_layer [] sel_keys layer = None"
| "required_trait_for_layer ((a, b) # ps) sel_keys layer =
     (case split_key a of
        None \<Rightarrow> required_trait_for_layer ps sel_keys layer
      | Some (la, ta) \<Rightarrow>
          (case split_key b of
             None \<Rightarrow> required_trait_for_layer ps sel_keys layer
           | Some (lb, tb) \<Rightarrow>
               if mk_key la ta \<in> set sel_keys \<and> lb = layer then Some tb
               else required_trait_for_layer ps sel_keys layer))"

text \<open>
  The second scan (lines 1129 to 1138), after a key has been registered.
  \<^verbatim>\<open>
  for a, b in include_pairs:
      if key == a:
          try:
              lb, tb = b.split(":", 1)
          except ValueError:
              continue
          # Only set forced if target layer hasn't been processed yet
          if lb not in selected:
              forced_selection[lb] = tb
  \<close>
\<close>

fun handle_inclusion_chains :: "(string \<times> string) list \<Rightarrow> string \<Rightarrow> (string \<rightharpoonup> string)
                                 \<Rightarrow> (string \<rightharpoonup> string) \<Rightarrow> (string \<rightharpoonup> string)" where
  "handle_inclusion_chains [] key sel forced = forced"
| "handle_inclusion_chains ((a, b) # ps) key sel forced =
     (if key = a then
        (case split_key b of
           None \<Rightarrow> handle_inclusion_chains ps key sel forced
         | Some (lb, tb) \<Rightarrow>
             if sel lb = None then handle_inclusion_chains ps key sel (forced(lb \<mapsto> tb))
             else handle_inclusion_chains ps key sel forced)
      else handle_inclusion_chains ps key sel forced)"

text \<open>
  Registering a selection (lines 1124 to 1138):
  \<^verbatim>\<open>
  selected[layer] = chosen_trait
  key = f"{layer}:{chosen_trait}"
  selected_keys.append(key)
  \<close>
  followed by the second scan.
\<close>

definition register_selection :: "merged_rules \<Rightarrow> selection \<Rightarrow> string \<Rightarrow> string \<Rightarrow> selection" where
  "register_selection rules s layer chosen_trait =
     (let sel' = (selected s)(layer \<mapsto> chosen_trait);
          key = mk_key layer chosen_trait
      in s\<lparr>selected := sel',
           selected_keys := selected_keys s @ [key],
           forced_selection := handle_inclusion_chains (include_pairs rules) key sel' (forced_selection s)\<rparr>)"

text \<open>\<^verbatim>\<open>layer_p = int(layer_rarities.get(layer, 100))\<close>\<close>

definition layer_rarity :: "merged_rules \<Rightarrow> string \<Rightarrow> int" where
  "layer_rarity rules layer = (case layer_rarities rules layer of None \<Rightarrow> 100 | Some p \<Rightarrow> p)"

text \<open>
  The presence test, line 1069:
  \<^verbatim>\<open>if not must_include and random.random() > (layer_p / 100.0): continue\<close>
\<close>

definition layer_skipped :: "int \<Rightarrow> bool \<Rightarrow> draw \<Rightarrow> bool" where
  "layer_skipped layer_p must_include d =
     (\<not> must_include \<and> presence_draw d > of_int layer_p / 100)"

text \<open>
  The viable options and their weights (lines 1104 to 1114):
  \<^verbatim>\<open>
  for t in options:
      key = f"{layer}:{t}"
      if _is_excluded_by_pairs(key, selected_keys, exclude_pairs):
          continue
      weight = int(trait_rarities.get(key, 100))
      if weight < 0:
          weight = 0
      viable_opts.append(t)
      viable_wts.append(weight)
  \<close>
\<close>

definition trait_weight :: "merged_rules \<Rightarrow> string \<Rightarrow> int" where
  "trait_weight rules key =
     (let weight = (case trait_rarities rules key of None \<Rightarrow> 100 | Some w \<Rightarrow> w)
      in if weight < 0 then 0 else weight)"

definition viable_opts :: "merged_rules \<Rightarrow> string list \<Rightarrow> string \<Rightarrow> string list \<Rightarrow> string list" where
  "viable_opts rules sel_keys layer options =
     filter (\<lambda>t. \<not> is_excluded_by_pairs (mk_key layer t) sel_keys (exclude_pairs rules)) options"

definition viable_wts :: "merged_rules \<Rightarrow> string list \<Rightarrow> string \<Rightarrow> string list \<Rightarrow> int list" where
  "viable_wts rules sel_keys layer options =
     map (\<lambda>t. trait_weight rules (mk_key layer t)) (viable_opts rules sel_keys layer options)"

text \<open>
  One iteration of \<^verbatim>\<open>for layer in final_layer_order\<close> (lines 1061 to 1138). The catalog
  \<^verbatim>\<open>all_traits\<close> is the dictionary that \<^verbatim>\<open>_collect_traits\<close> returned, given as the list of
  its items. A forced trait is a string, so \<^verbatim>\<open>chosen_trait is None\<close> holds exactly
  when the layer is not in \<^verbatim>\<open>forced_selection\<close>.
\<close>

definition select_layer :: "merged_rules \<Rightarrow> (string \<times> string list) list \<Rightarrow> draw \<Rightarrow> selection
                             \<Rightarrow> string \<Rightarrow> selection" where
  "select_layer rules all_traits d s layer =
     (let options = (case map_of all_traits layer of None \<Rightarrow> [] | Some ts \<Rightarrow> ts) in
      if options = [] then s
      else
        let layer_p = layer_rarity rules layer;
            must_include = (forced_selection s layer \<noteq> None)
        in
          if layer_skipped layer_p must_include d then s
          else
            (case forced_selection s layer of
               Some chosen_trait \<Rightarrow> register_selection rules s layer chosen_trait
             | None \<Rightarrow>
                 (case required_trait_for_layer (include_pairs rules) (selected_keys s) layer of
                    Some required \<Rightarrow>
                      if required \<in> set options then register_selection rules s layer required
                      else s\<lparr>sel_log := sel_log s @ [InclusionNotFound layer required]\<rparr>
                  | None \<Rightarrow>
                      (let vo = viable_opts rules (selected_keys s) layer options;
                           vw = viable_wts rules (selected_keys s) layer options
                       in if vo = [] then s
                          else (case weighted_choice vo vw d of
                                  None \<Rightarrow> s
                                | Some chosen_trait \<Rightarrow> register_selection rules s layer chosen_trait)))))"

text \<open>
  The layer loop. \<open>ds i\<close> holds the draws of the \<open>i\<close>-th iteration.
\<close>

fun walk_layers :: "merged_rules \<Rightarrow> (string \<times> string list) list \<Rightarrow> (nat \<Rightarrow> draw) \<Rightarrow> selection
                     \<Rightarrow> string list \<Rightarrow> selection" where
  "walk_layers rules all_traits ds s [] = s"
| "walk_layers rules all_traits ds s (layer # rest) =
     walk_layers rules all_traits (\<lambda>i. ds (Suc i)) (select_layer rules all_traits (ds 0) s layer) rest"

subsection \<open>Uniqueness guard and metadata\<close>

text \<open>
  \<^verbatim>\<open>
  dna_parts = []
  for layer in final_layer_order:
      trait = selected.get(layer, "__none__")
      dna_parts.append(f"{layer}:{trait}")
  dna = "|".join(dna_parts)
  \<close>
\<close>

fun join :: "string \<Rightarrow> string list \<Rightarrow> string" where
  "join sep [] = []"
| "join sep [x] = x"
| "join sep (x # y # ys) = x @ sep @ join sep (y # ys)"

definition dna_parts :: "string list \<Rightarrow> (string \<rightharpoonup> string) \<Rightarrow> string list" where
  "dna_parts final_layer_order sel =
     map (\<lambda>layer. mk_key layer (case sel layer of None \<Rightarrow> ''__none__'' | Some trait \<Rightarrow> trait))
       final_layer_order"

definition dna_of :: "string list \<Rightarrow> (string \<rightharpoonup> string) \<Rightarrow> string" where
  "dna_of final_layer_order sel = join ''|'' (dna_parts final_layer_order sel)"

text \<open>
  \<^verbatim>\<open>
  for layer in final_layer_order:
      trait = selected.get(layer)
      if trait and trait != "__none__":
          attributes.append({"trait_type": layer, "value": trait})
  \<close>
\<close>

definition attributes_of :: "string list \<Rightarrow> (string \<rightharpoonup> string) \<Rightarrow> (string \<times> string) list" where
  "attributes_of final_layer_order sel =
     concat (map (\<lambda>layer. case sel layer of
                             None \<Rightarrow> []
                           | Some trait \<Rightarrow> if trait \<noteq> [] \<and> trait \<noteq> ''__none__'' then [(layer, trait)] else [])
               final_layer_order)"

subsection \<open>Orchestrator\<close>

text \<open>
  What \<^verbatim>\<open>run_generation\<close> receives from outside its arguments:
  \<^item> whether \<^verbatim>\<open>os.makedirs\<close> raises (lines 1028 and 1029, outside every \<^verbatim>\<open>try\<close>);
  \<^item> the saved mapping sets and the catalog returned by \<^verbatim>\<open>_collect_traits\<close>;
  \<^item> the random draws, by edition number and position in the layer loop;
  \<^item> for each edition number, whether \<^verbatim>\<open>Image.new\<close> (line 1054), the compositing
    (lines 1155 to 1177: \<^verbatim>\<open>os.listdir\<close>, \<^verbatim>\<open>resize\<close>, \<^verbatim>\<open>alpha_composite\<close>),
    \<^verbatim>\<open>result_image.save\<close> (line 1182) or the writing of the metadata file (lines 1199
    and 1200) raises when it is reached;
  \<^item> whether the progress callback raises, at its call inside the \<^verbatim>\<open>try\<close> (line 1151,
    duplicate branch) and at its call after the \<^verbatim>\<open>try\<close> (line 1210). A missing callback
    never raises.
  Pixels are not modelled: of the compositing only an escaping exception matters here.
  The other calls before the loop (reading the fields of \<^verbatim>\<open>config\<close>, \<^verbatim>\<open>_collect_traits\<close>)
  are taken to return.
\<close>

record env =
  makedirs_raises :: bool
  saved_mappings :: saved_file
  all_traits :: "(string \<times> string list) list"
  draws :: "int \<Rightarrow> nat \<Rightarrow> draw"
  new_image_raises :: "int \<Rightarrow> bool"
  compositing_raises :: "int \<Rightarrow> bool"
  image_save_raises :: "int \<Rightarrow> bool"
  metadata_save_raises :: "int \<Rightarrow> bool"
  progress_raises_in_try :: "int \<Rightarrow> bool"
  progress_raises_after :: "int \<Rightarrow> bool"

text \<open>
  The metadata record of lines 1192 to 1198; \<open>md_edition\<close> also stands for the edition
  number inside \<^verbatim>\<open>name\<close> and \<^verbatim>\<open>image\<close>.
\<close>

record metadata_file =
  md_collection :: string
  md_description :: string
  md_attributes :: "(string \<times> string) list"
  md_edition :: int

text \<open>
  The state of the run: the DNA set, the three counters of \<^verbatim>\<open>stats\<close>, and what the run
  has written: image files (by edition number), metadata files, log lines.
\<close>

record run_state =
  generated_dna :: "string set"
  success :: int
  duplicates :: int
  errors :: int
  images :: "int list"
  metadata :: "metadata_file list"
  log_lines :: "log_msg list"

definition initial_state :: "log_msg list \<Rightarrow> run_state" where
  "initial_state lg = \<lparr>generated_dna = {}, success = 0, duplicates = 0, errors = 0,
                       images = [], metadata = [], log_lines = lg\<rparr>"

text \<open>The selection of edition \<open>n\<close> and its DNA (steps 1 and 2 of the loop body).\<close>

definition edition_selection :: "env \<Rightarrow> merged_rules \<Rightarrow> string list \<Rightarrow> int \<Rightarrow> selection" where
  "edition_selection e rules final_layer_order n =
     walk_layers rules (all_traits e) (draws e n) empty_selection final_layer_order"

definition edition_dna :: "env \<Rightarrow> merged_rules \<Rightarrow> string list \<Rightarrow> int \<Rightarrow> string" where
  "edition_dna e rules final_layer_order n =
     dna_of final_layer_order (selected (edition_selection e rules final_layer_order n))"

text \<open>
  The body of the \<^verbatim>\<open>try\<close> (lines 1053 to 1203). What was assigned before an exception
  stays assigned, so the body returns the state together with how it ended: by reaching
  its end, by the \<^verbatim>\<open>continue\<close> of the duplicate branch, or by raising.
\<close>

datatype try_result = Completed | Continued | Raised

definition try_body :: "env \<Rightarrow> config \<Rightarrow> merged_rules \<Rightarrow> string list \<Rightarrow> run_state \<Rightarrow> int
                         \<Rightarrow> try_result \<times> run_state" where
  "try_body e cfg rules final_layer_order st n =
     (if new_image_raises e n then (Raised, st)
      else
        let sel = edition_selection e rules final_layer_order n;
            st1 = st\<lparr>log_lines := log_lines st @ sel_log sel\<rparr>;
            dna = dna_of final_layer_order (selected sel)
        in
          if dna \<in> generated_dna st1 then
            (let st2 = st1\<lparr>duplicates := duplicates st1 + 1,
                           log_lines := log_lines st1 @ [DuplicateAt n]\<rparr>
             in if progress_raises_in_try e n then (Raised, st2) else (Continued, st2))
          else if compositing_raises e n then (Raised, st1)
          else
            (let st3 = st1\<lparr>generated_dna := insert dna (generated_dna st1)\<rparr> in
             if image_save_raises e n then (Raised, st3)
             else
               (let st4 = st3\<lparr>images := images st3 @ [n]\<rparr> in
                if metadata_save_raises e n then (Raised, st4)
                else
                  (Completed,
                   st4\<lparr>metadata := metadata st4 @
                          [\<lparr>md_collection = (case collection_name cfg of None \<Rightarrow> ''Collection'' | Some c \<Rightarrow> c),
                            md_description = (case collection_description cfg of None \<Rightarrow> [] | Some c \<Rightarrow> c),
                            md_attributes = attributes_of final_layer_order (selected sel),
                            md_edition = n\<rparr>],
                        success := success st4 + 1,
                        log_lines := log_lines st4 @ [Generated n]\<rparr>))))"

text \<open>
  One iteration of \<^verbatim>\<open>for edition_number in range(1, edition_size + 1)\<close>: the \<^verbatim>\<open>try\<close>, its
  \<^verbatim>\<open>except Exception\<close> clause (lines 1205 to 1207), and the progress call after it
  (lines 1209 and 1210), which the \<^verbatim>\<open>continue\<close> of the duplicate branch skips. An exception
  of that last call leaves \<^verbatim>\<open>run_generation\<close>.
\<close>

datatype run_error = MakedirsFailed | ProgressCallbackRaised int

definition process_edition :: "env \<Rightarrow> config \<Rightarrow> merged_rules \<Rightarrow> string list \<Rightarrow> run_state \<Rightarrow> int
                                \<Rightarrow> run_error option \<times> run_state" where
  "process_edition e cfg rules final_layer_order st n =
     (case try_body e cfg rules final_layer_order st n of
        (Continued, st') \<Rightarrow> (None, st')
      | (Completed, st') \<Rightarrow>
          (if progress_raises_after e n then (Some (ProgressCallbackRaised n), st') else (None, st'))
      | (Raised, st') \<Rightarrow>
          (let st'' = st'\<lparr>errors := errors st' + 1, log_lines := log_lines st' @ [ErrorOn n]\<rparr>
           in if progress_raises_after e n then (Some (ProgressCallbackRaised n), st'')
              else (None, st'')))"

fun run_loop :: "env \<Rightarrow> config \<Rightarrow> merged_rules \<Rightarrow> string list \<Rightarrow> run_state \<Rightarrow> int list
                  \<Rightarrow> run_error option \<times> run_state" where
  "run_loop e cfg rules final_layer_order st [] = (None, st)"
| "run_loop e cfg rules final_layer_order st (n # ns) =
     (case process_edition e cfg rules final_layer_order st n of
        (Some err, st') \<Rightarrow> (Some err, st')
      | (None, st') \<Rightarrow> run_loop e cfg rules final_layer_order st' ns)"

text \<open>
  \<^verbatim>\<open>
  if not layer_order:
      layer_order = sorted(all_traits.keys())
  final_layer_order = [L for L in layer_order if L in all_traits and L not in excluded_layers]
  \<close>
\<close>

definition final_layer_order :: "env \<Rightarrow> config \<Rightarrow> string list" where
  "final_layer_order e cfg =
     (let order = (if layer_order cfg = [] then sort (remdups (map fst (all_traits e)))
                   else layer_order cfg)
      in filter (\<lambda>L. L \<in> set (map fst (all_traits e)) \<and> L \<notin> set (excluded_layers cfg)) order)"

text \<open>
  \<^verbatim>\<open>run_generation(config, edition_size, ...)\<close>. The first component is \<open>None\<close> when the
  function returns \<^verbatim>\<open>stats\<close> (the counters of the state), and the exception that leaves
  it otherwise; the second is the state reached.
\<close>

definition run_generation :: "env \<Rightarrow> config \<Rightarrow> int \<Rightarrow> run_error option \<times> run_state" where
  "run_generation e cfg edition_size =
     (if makedirs_raises e then (Some MakedirsFailed, initial_state [])
      else
        let (rules, lg) = merge_mapping_sets cfg (saved_mappings e)
        in run_loop e cfg rules (final_layer_order e cfg) (initial_state lg) [1..edition_size])"

definition merged :: "env \<Rightarrow> config \<Rightarrow> merged_rules" where
  "merged e cfg = fst (merge_mapping_sets cfg (saved_mappings e))"

text \<open>The outcome lines of the log and the edition they speak of.\<close>

fun outcome_number :: "log_msg \<Rightarrow> int option" where
  "outcome_number (Generated n) = Some n"
| "outcome_number (DuplicateAt n) = Some n"
| "outcome_number (ErrorOn n) = Some n"
| "outcome_number _ = None"

definition outcome_numbers :: "log_msg list \<Rightarrow> int list" where
  "outcome_numbers lg = concat (map (\<lambda>m. case outcome_number m of None \<Rightarrow> [] | Some n \<Rightarrow> [n]) lg)"

subsection \<open>Reading the outcome of a run\<close>

text \<open>
  The editions the log reports as generated, as duplicates and as errors, and the
  editions whose metadata file was written (the accepted editions: their image file
  was written just before).
\<close>

definition generated_numbers :: "log_msg list \<Rightarrow> int list" where
  "generated_numbers lg = concat (map (\<lambda>m. case m of Generated n \<Rightarrow> [n] | _ \<Rightarrow> []) lg)"

definition duplicate_numbers :: "log_msg list \<Rightarrow> int list" where
  "duplicate_numbers lg = concat (map (\<lambda>m. case m of DuplicateAt n \<Rightarrow> [n] | _ \<Rightarrow> []) lg)"

definition error_numbers :: "log_msg list \<Rightarrow> int list" where
  "error_numbers lg = concat (map (\<lambda>m. case m of ErrorOn n \<Rightarrow> [n] | _ \<Rightarrow> []) lg)"

definition accepted_editions :: "run_state \<Rightarrow> int list" where
  "accepted_editions st = map md_edition (metadata st)"

subsection \<open>Auxiliary notions for the selection engine\<close>

text \<open>
  The traits that the second scan meets for one target layer: the targets, in list
  order, of the include pairs whose source is the key just selected.
\<close>

definition matching_targets :: "(string \<times> string) list \<Rightarrow> string \<Rightarrow> string \<Rightarrow> string list" where
  "matching_targets ps key layer =
     concat (map (\<lambda>(a, b). if key = a
                              then (case split_key b of
                                      None \<Rightarrow> []
                                    | Some (lb, tb) \<Rightarrow> if lb = layer then [tb] else [])
                              else []) ps)"


text \<open>
  The layers that some include pair targets; two keys that an exclude pair names, in
  either order; and a second invariant of the layer loop: only target layers are forced,
  every selected trait has its key in \<open>selected_keys\<close>, and two layers that are not
  targets never hold both keys of an exclude pair.
\<close>

definition include_targets :: "merged_rules \<Rightarrow> string set" where
  "include_targets rules = {lb. \<exists>a b tb. (a, b) \<in> set (include_pairs rules) \<and> split_key b = Some (lb, tb)}"

definition conflicting :: "merged_rules \<Rightarrow> string \<Rightarrow> string \<Rightarrow> bool" where
  "conflicting rules k1 k2 = ((k1, k2) \<in> set (exclude_pairs rules) \<or> (k2, k1) \<in> set (exclude_pairs rules))"

definition exclusions_respected :: "merged_rules \<Rightarrow> selection \<Rightarrow> bool" where
  "exclusions_respected rules s =
     (dom (forced_selection s) \<subseteq> include_targets rules
      \<and> (\<forall>l t. selected s l = Some t \<longrightarrow> mk_key l t \<in> set (selected_keys s))
      \<and> (\<forall>l1 t1 l2 t2. selected s l1 = Some t1 \<and> selected s l2 = Some t2 \<and> l1 \<noteq> l2
            \<and> l1 \<notin> include_targets rules \<and> l2 \<notin> include_targets rules \<longrightarrow>
            \<not> conflicting rules (mk_key l1 t1) (mk_key l2 t2)))"

subsection \<open>Invariants of the run\<close>

text \<open>A log without outcome lines (the warnings of the merger and of the selection).\<close>

definition only_warnings :: "log_msg list \<Rightarrow> bool" where
  "only_warnings lg = (outcome_numbers lg = [])"

text \<open>
  The DNA of every edition whose image was written is in the DNA set; two such editions
  have different DNA; an accepted edition has its image written; the log reports as
  generated exactly the accepted editions.
\<close>

definition persisted_distinct :: "env \<Rightarrow> merged_rules \<Rightarrow> string list \<Rightarrow> run_state \<Rightarrow> bool" where
  "persisted_distinct e rules lo st =
     ((\<forall>i \<in> set (images st). edition_dna e rules lo i \<in> generated_dna st)
      \<and> (\<forall>i \<in> set (images st). \<forall>j \<in> set (images st).
            i \<noteq> j \<longrightarrow> edition_dna e rules lo i \<noteq> edition_dna e rules lo j)
      \<and> set (accepted_editions st) \<subseteq> set (images st)
      \<and> generated_numbers (log_lines st) = accepted_editions st)"


subsection \<open>Example inputs\<close>

text \<open>
  A configuration with three attached mapping sets, the second of which is not in the
  saved file, and two saved sets that both write the key \<open>Hat:Cap\<close>.
\<close>

definition example_saved :: saved_file where
  "example_saved = Loaded
     [''base'' \<mapsto> MappingSet
        \<lparr>ms_rarities = [(''Hat:Cap'', IntLike 10), (''Hat:Top'', NotIntLike)],
         ms_layer_rarities = [(''Hat'', IntLike 50)],
         ms_include_pairs = [PairList [''Hat:Cap'', ''Eyes:Blue''], NotAList],
         ms_exclude_pairs = [PairList [''Hat:Top'', ''Eyes:Red'']]\<rparr>,
      ''override'' \<mapsto> MappingSet
        \<lparr>ms_rarities = [(''Hat:Cap'', IntLike 70)],
         ms_layer_rarities = [],
         ms_include_pairs = [PairList [''Hat:Cap'', ''Eyes:Blue'']],
         ms_exclude_pairs = []\<rparr>]"

definition example_config :: config where
  "example_config = \<lparr>layer_order = [''Hat'', ''Eyes''], excluded_layers = [],
                      mapping_sets = [''base'', ''missing'', ''override''],
                      collection_name = None, collection_description = None\<rparr>"

text \<open>
  Two layers with two traits each, no saved mapping sets (so every rarity is the default
  100 and there are no pairs). The draws of edition 2 pick the second trait of each
  layer, all other editions pick the first.
\<close>

definition plain_env :: env where
  "plain_env =
     \<lparr>makedirs_raises = False, saved_mappings = NoFile,
      all_traits = [(''Eyes'', [''Blue'', ''Red'']), (''Hat'', [''Cap'', ''Top''])],
      draws = (\<lambda>n i. \<lparr>presence_draw = 0, uniform_draw = (if n = 2 then 3/4 else 0), choice_draw = 0\<rparr>),
      new_image_raises = (\<lambda>n. False), compositing_raises = (\<lambda>n. False),
      image_save_raises = (\<lambda>n. False), metadata_save_raises = (\<lambda>n. False),
      progress_raises_in_try = (\<lambda>n. False), progress_raises_after = (\<lambda>n. False)\<rparr>"

text \<open>
  One layer with one trait, a mapping set \<open>zero\<close> that gives the layer rarity 0 and a
  mapping set \<open>negative\<close> that gives it rarity -5; \<^verbatim>\<open>random.random()\<close> returns 0.0.
\<close>

definition zero_env :: env where
  "zero_env =
     \<lparr>makedirs_raises = False,
      saved_mappings = Loaded
        [''zero'' \<mapsto> MappingSet \<lparr>ms_rarities = [], ms_layer_rarities = [(''Hat'', IntLike 0)],
                                 ms_include_pairs = [], ms_exclude_pairs = []\<rparr>,
         ''negative'' \<mapsto> MappingSet \<lparr>ms_rarities = [], ms_layer_rarities = [(''Hat'', IntLike (- 5))],
                                     ms_include_pairs = [], ms_exclude_pairs = []\<rparr>],
      all_traits = [(''Hat'', [''Cap''])],
      draws = (\<lambda>n i. \<lparr>presence_draw = 0, uniform_draw = 0, choice_draw = 0\<rparr>),
      new_image_raises = (\<lambda>n. False), compositing_raises = (\<lambda>n. False),
      image_save_raises = (\<lambda>n. False), metadata_save_raises = (\<lambda>n. False),
      progress_raises_in_try = (\<lambda>n. False), progress_raises_after = (\<lambda>n. False)\<rparr>"

definition zero_config :: config where
  "zero_config = \<lparr>layer_order = [''Hat''], excluded_layers = [], mapping_sets = [''zero''],
                   collection_name = None, collection_description = None\<rparr>"


text \<open>
  Three layers; the inclusion \<open>Body:Robot \<Rightarrow> Eyes:Laser\<close> and the exclusion
  \<open>Hat:Crown \<times> Eyes:Laser\<close>. The rules can be met (\<open>Hat:Tiara\<close> goes with \<open>Eyes:Laser\<close>).
\<close>

definition conflict_env :: env where
  "conflict_env =
     \<lparr>makedirs_raises = False,
      saved_mappings = Loaded
        [''rules'' \<mapsto> MappingSet \<lparr>ms_rarities = [], ms_layer_rarities = [],
                                  ms_include_pairs = [PairList [''Body:Robot'', ''Eyes:Laser'']],
                                  ms_exclude_pairs = [PairList [''Hat:Crown'', ''Eyes:Laser'']]\<rparr>],
      all_traits = [(''Body'', [''Robot'']), (''Eyes'', [''Laser'', ''Plain'']), (''Hat'', [''Crown'', ''Tiara''])],
      draws = (\<lambda>n i. \<lparr>presence_draw = 0, uniform_draw = 0, choice_draw = 0\<rparr>),
      new_image_raises = (\<lambda>n. False), compositing_raises = (\<lambda>n. False),
      image_save_raises = (\<lambda>n. False), metadata_save_raises = (\<lambda>n. False),
      progress_raises_in_try = (\<lambda>n. False), progress_raises_after = (\<lambda>n. False)\<rparr>"

definition conflict_config :: config where
  "conflict_config = \<lparr>layer_order = [''Body'', ''Hat'', ''Eyes''], excluded_layers = [],
                       mapping_sets = [''rules''],
                       collection_name = None, collection_description = None\<rparr>"





section \<open>Weighted choice: properties\<close>







lemma walk_weights_member: "walk_weights xs u r = Some t \<Longrightarrow> t \<in> fst ` set xs"
  by (induction xs u r rule: walk_weights.induct) (auto split: if_splits)

lemma weighted_choice_member:
  assumes "weighted_choice options weights d = Some t"
  shows "t \<in> set options"
proof (cases "sum_list (filter (\<lambda>w. w > 0) weights) \<le> 0")
  case True
  with assms have ne: "options \<noteq> []" and t: "t = options ! (choice_draw d mod length options)"
    by (auto simp: weighted_choice_def random_choice_def split: if_splits)
  from ne have "choice_draw d mod length options < length options" by simp
  with t show ?thesis by simp
next
  case False
  show ?thesis
  proof (cases "walk_weights (zip options weights) 0
                  (of_int (sum_list (filter (\<lambda>w. w > 0) weights)) * uniform_draw d)")
    case None
    with assms False show ?thesis
      by (auto simp: weighted_choice_def Let_def split: if_splits)
  next
    case (Some x)
    with assms False have "x = t" by (simp add: weighted_choice_def Let_def)
    with walk_weights_member[OF Some] have "t \<in> fst ` set (zip options weights)" by simp
    then show ?thesis by (auto dest: set_zip_leftD)
  qed
qed



section \<open>Rule merger: properties\<close>

lemma overlay_rarities_append:
  "overlay_rarities acc (xs @ ys) = overlay_rarities (overlay_rarities acc xs) ys"
  by (induction xs arbitrary: acc) (auto split: rarity_value.splits)

lemma last_writer_Nil: "last_writer [] k = None"
  by (simp add: last_writer_def)

lemma last_writer_Cons:
  "last_writer ((k', v) # kvs) k =
     (case last_writer kvs k of
        Some n \<Rightarrow> Some n
      | None \<Rightarrow> (case v of IntLike n \<Rightarrow> if k' = k then Some n else None | NotIntLike \<Rightarrow> None))"
proof -
  obtain f where f: "filter (\<lambda>(k', v). k' = k \<and> v \<noteq> NotIntLike) kvs = f" by simp
  have conv: "\<forall>p \<in> set f. snd p \<noteq> NotIntLike" using f by auto
  show ?thesis
  proof (cases f)
    case Nil
    have "last_writer kvs k = None" by (simp add: last_writer_def f Nil)
    moreover have "last_writer ((k', v) # kvs) k =
        (case v of IntLike n \<Rightarrow> if k' = k then Some n else None | NotIntLike \<Rightarrow> None)"
      by (cases v) (simp_all add: last_writer_def f Nil)
    ultimately show ?thesis by simp
  next
    case (Cons w ws)
    then have "snd (last f) \<noteq> NotIntLike" using conv by (metis last_in_set list.discI)
    then obtain n where n: "snd (last f) = IntLike n" by (cases "snd (last f)") auto
    have "last_writer kvs k = Some n"
      using n by (simp add: last_writer_def f Cons)
    moreover have "last_writer ((k', v) # kvs) k = Some n"
      using n by (simp add: last_writer_def f Cons)
    ultimately show ?thesis by simp
  qed
qed

lemma overlay_rarities_last_writer:
  "overlay_rarities acc kvs k = (case last_writer kvs k of None \<Rightarrow> acc k | Some n \<Rightarrow> Some n)"
proof (induction kvs arbitrary: acc)
  case Nil
  then show ?case by (simp add: last_writer_Nil)
next
  case (Cons kv kvs)
  obtain k' v where kv: "kv = (k', v)" by (cases kv)
  show ?case
    unfolding kv by (cases v) (auto simp: Cons.IH last_writer_Cons split: option.splits)
qed

lemma append_pairs_well_formed: "append_pairs acc ps = acc @ well_formed_pairs ps"
proof (induction acc ps rule: append_pairs.induct)
  case (1 acc)
  then show ?case by (simp add: well_formed_pairs_def)
qed (simp_all add: well_formed_pairs_def)

lemma foldl_overlay_set_trait:
  "trait_rarities (foldl overlay_set acc ms) =
     overlay_rarities (trait_rarities acc) (concat (map ms_rarities ms))"
  by (induction ms arbitrary: acc) (simp_all add: overlay_set_def overlay_rarities_append)

lemma foldl_overlay_set_layer:
  "layer_rarities (foldl overlay_set acc ms) =
     overlay_rarities (layer_rarities acc) (concat (map ms_layer_rarities ms))"
  by (induction ms arbitrary: acc) (simp_all add: overlay_set_def overlay_rarities_append)

lemma foldl_overlay_set_include:
  "include_pairs (foldl overlay_set acc ms) =
     include_pairs acc @ concat (map (\<lambda>m. well_formed_pairs (ms_include_pairs m)) ms)"
  by (induction ms arbitrary: acc) (simp_all add: overlay_set_def append_pairs_well_formed)

lemma foldl_overlay_set_exclude:
  "exclude_pairs (foldl overlay_set acc ms) =
     exclude_pairs acc @ concat (map (\<lambda>m. well_formed_pairs (ms_exclude_pairs m)) ms)"
  by (induction ms arbitrary: acc) (simp_all add: overlay_set_def append_pairs_well_formed)

lemma merge_loop_present:
  "merge_loop saved (acc, lg) names =
     (foldl overlay_set acc (present_sets saved names), lg @ absent_warnings saved names)"
proof (induction names arbitrary: acc lg)
  case Nil
  then show ?case by (simp add: present_sets_def absent_warnings_def)
next
  case (Cons name names)
  show ?case
  proof (cases "saved name")
    case None
    then show ?thesis using Cons.IH by (simp add: present_sets_def absent_warnings_def)
  next
    case (Some v)
    then show ?thesis using Cons.IH by (cases v) (simp_all add: present_sets_def absent_warnings_def)
  qed
qed

lemma present_sets_cong:
  "\<forall>name \<in> set names. saved name = saved' name \<Longrightarrow> present_sets saved names = present_sets saved' names"
  unfolding present_sets_def by (induction names) auto

lemma absent_warnings_cong:
  "\<forall>name \<in> set names. saved name = saved' name \<Longrightarrow> absent_warnings saved names = absent_warnings saved' names"
  unfolding absent_warnings_def by (induction names) auto

lemma present_sets_absent:
  "saved name = None \<or> saved name = Some Falsy \<Longrightarrow> present_sets saved (xs @ name # ys) = present_sets saved (xs @ ys)"
  unfolding present_sets_def by auto

text \<open>
  Claim C9. The merger goes through \<open>mapping_sets cfg\<close> in list order. With \<open>present\<close>
  the saved sets found for these names, in that order: every trait-rarity and
  layer-rarity key holds the last integer written for it (an entry whose value \<^verbatim>\<open>int()\<close>
  rejects writes nothing); the include and exclude pairs are the well-formed pairs of
  the present sets, concatenated, duplicates kept; the log is the read warning followed
  by one warning per name that is absent (or stored as a falsy value), and such a name
  contributes no rules. The result depends on nothing but the names and the saved sets
  looked up for them.
\<close>

theorem C9_merge_mapping_sets:
  fixes cfg :: config and sf :: saved_file
  defines "names \<equiv> mapping_sets cfg"
  defines "saved \<equiv> saved_dict sf"
  defines "present \<equiv> present_sets saved names"
  defines "rules \<equiv> fst (merge_mapping_sets cfg sf)"
  shows "(\<forall>k. trait_rarities rules k = last_writer (concat (map ms_rarities present)) k)
       \<and> (\<forall>k. layer_rarities rules k = last_writer (concat (map ms_layer_rarities present)) k)
       \<and> include_pairs rules = concat (map (\<lambda>m. well_formed_pairs (ms_include_pairs m)) present)
       \<and> exclude_pairs rules = concat (map (\<lambda>m. well_formed_pairs (ms_exclude_pairs m)) present)
       \<and> snd (merge_mapping_sets cfg sf) = read_warning sf @ absent_warnings saved names
       \<and> (\<forall>xs name ys. names = xs @ name # ys \<and> (saved name = None \<or> saved name = Some Falsy) \<longrightarrow>
             MappingSetNotFound name \<in> set (snd (merge_mapping_sets cfg sf))
           \<and> fst (merge_mapping_sets (cfg\<lparr>mapping_sets := xs @ ys\<rparr>) sf) = rules)
       \<and> (\<forall>cfg' sf'. mapping_sets cfg' = names
             \<and> (\<forall>name \<in> set names. saved_dict sf' name = saved name)
             \<and> read_warning sf' = read_warning sf \<longrightarrow>
             merge_mapping_sets cfg' sf' = merge_mapping_sets cfg sf)"
proof -
  have m: "merge_mapping_sets cfg sf =
        (foldl overlay_set empty_rules present, read_warning sf @ absent_warnings saved names)"
    unfolding merge_mapping_sets_def merge_loop_present present_def names_def saved_def ..
  have r: "rules = foldl overlay_set empty_rules present"
    unfolding rules_def m by simp
  have 1: "\<forall>k. trait_rarities rules k = last_writer (concat (map ms_rarities present)) k"
    unfolding r foldl_overlay_set_trait overlay_rarities_last_writer
    by (simp add: empty_rules_def split: option.splits)
  have 2: "\<forall>k. layer_rarities rules k = last_writer (concat (map ms_layer_rarities present)) k"
    unfolding r foldl_overlay_set_layer overlay_rarities_last_writer
    by (simp add: empty_rules_def split: option.splits)
  have 3: "include_pairs rules = concat (map (\<lambda>m. well_formed_pairs (ms_include_pairs m)) present)"
    unfolding r foldl_overlay_set_include by (simp add: empty_rules_def)
  have 4: "exclude_pairs rules = concat (map (\<lambda>m. well_formed_pairs (ms_exclude_pairs m)) present)"
    unfolding r foldl_overlay_set_exclude by (simp add: empty_rules_def)
  have 5: "snd (merge_mapping_sets cfg sf) = read_warning sf @ absent_warnings saved names"
    unfolding m by simp
  have 6: "MappingSetNotFound name \<in> set (snd (merge_mapping_sets cfg sf))
           \<and> fst (merge_mapping_sets (cfg\<lparr>mapping_sets := xs @ ys\<rparr>) sf) = rules"
    if "names = xs @ name # ys \<and> (saved name = None \<or> saved name = Some Falsy)" for xs name ys
  proof
    from that have "MappingSetNotFound name \<in> set (absent_warnings saved names)"
      by (auto simp: absent_warnings_def)
    then show "MappingSetNotFound name \<in> set (snd (merge_mapping_sets cfg sf))"
      unfolding 5 by simp
    from that have "present_sets saved (xs @ ys) = present"
      unfolding present_def using present_sets_absent[of saved name xs ys] by simp
    then show "fst (merge_mapping_sets (cfg\<lparr>mapping_sets := xs @ ys\<rparr>) sf) = rules"
      unfolding r by (simp add: merge_mapping_sets_def merge_loop_present saved_def)
  qed
  have 7: "merge_mapping_sets cfg' sf' = merge_mapping_sets cfg sf"
    if "mapping_sets cfg' = names \<and> (\<forall>name \<in> set names. saved_dict sf' name = saved name)
        \<and> read_warning sf' = read_warning sf" for cfg' sf'
  proof -
    from that have "present_sets (saved_dict sf') names = present"
      and "absent_warnings (saved_dict sf') names = absent_warnings saved names"
      unfolding present_def using present_sets_cong absent_warnings_cong by blast+
    with that show ?thesis
      unfolding m by (simp add: merge_mapping_sets_def merge_loop_present)
  qed
  from 1 2 3 4 5 6 7 show ?thesis by blast
qed

theorem C9_merge_mapping_sets_witness:
  "trait_rarities (fst (merge_mapping_sets example_config example_saved)) ''Hat:Cap'' = Some 70
   \<and> trait_rarities (fst (merge_mapping_sets example_config example_saved)) ''Hat:Top'' = None
   \<and> layer_rarities (fst (merge_mapping_sets example_config example_saved)) ''Hat'' = Some 50
   \<and> include_pairs (fst (merge_mapping_sets example_config example_saved))
       = [(''Hat:Cap'', ''Eyes:Blue''), (''Hat:Cap'', ''Eyes:Blue'')]
   \<and> exclude_pairs (fst (merge_mapping_sets example_config example_saved))
       = [(''Hat:Top'', ''Eyes:Red'')]
   \<and> snd (merge_mapping_sets example_config example_saved) = [MappingSetNotFound ''missing'']"
proof -
  note c = C9_merge_mapping_sets [of example_config example_saved]
  have ev: "last_writer (concat (map ms_rarities
                (present_sets (saved_dict example_saved) (mapping_sets example_config)))) ''Hat:Cap'' = Some 70"
    "last_writer (concat (map ms_rarities
                (present_sets (saved_dict example_saved) (mapping_sets example_config)))) ''Hat:Top'' = None"
    "last_writer (concat (map ms_layer_rarities
                (present_sets (saved_dict example_saved) (mapping_sets example_config)))) ''Hat'' = Some 50"
    "concat (map (\<lambda>m. well_formed_pairs (ms_include_pairs m))
                (present_sets (saved_dict example_saved) (mapping_sets example_config)))
       = [(''Hat:Cap'', ''Eyes:Blue''), (''Hat:Cap'', ''Eyes:Blue'')]"
    "concat (map (\<lambda>m. well_formed_pairs (ms_exclude_pairs m))
                (present_sets (saved_dict example_saved) (mapping_sets example_config)))
       = [(''Hat:Top'', ''Eyes:Red'')]"
    "read_warning example_saved @ absent_warnings (saved_dict example_saved) (mapping_sets example_config)
       = [MappingSetNotFound ''missing'']"
    by (simp_all add: example_config_def example_saved_def saved_dict_def read_warning_def
        present_sets_def last_writer_def well_formed_pairs_def absent_warnings_def)
  from c have t: "\<forall>k. trait_rarities (fst (merge_mapping_sets example_config example_saved)) k
      = last_writer (concat (map ms_rarities
                (present_sets (saved_dict example_saved) (mapping_sets example_config)))) k"
    by (rule conjunct1)
  from c have l: "\<forall>k. layer_rarities (fst (merge_mapping_sets example_config example_saved)) k
      = last_writer (concat (map ms_layer_rarities
                (present_sets (saved_dict example_saved) (mapping_sets example_config)))) k"
    by (rule conjunct2 [THEN conjunct1])
  note i = c [THEN conjunct2, THEN conjunct2, THEN conjunct1]
  note x = c [THEN conjunct2, THEN conjunct2, THEN conjunct2, THEN conjunct1]
  note w = c [THEN conjunct2, THEN conjunct2, THEN conjunct2, THEN conjunct2, THEN conjunct1]
  show ?thesis
    unfolding t [rule_format] l [rule_format] i x w ev by simp
qed

section \<open>Selection engine: properties\<close>

lemma matching_targets_Nil: "matching_targets [] key layer = []"
  by (simp add: matching_targets_def)

lemma matching_targets_Cons:
  "matching_targets ((a, b) # ps) key layer =
     (if key = a then (case split_key b of None \<Rightarrow> [] | Some (lb, tb) \<Rightarrow> if lb = layer then [tb] else [])
      else []) @ matching_targets ps key layer"
  by (simp add: matching_targets_def)

lemma handle_inclusion_chains_eq:
  "handle_inclusion_chains ps key sel forced layer =
     (if sel layer = None
      then (case matching_targets ps key layer of
              [] \<Rightarrow> forced layer
            | t # ts \<Rightarrow> Some (last (t # ts)))
      else forced layer)"
proof (induction ps arbitrary: forced)
  case Nil
  then show ?case by (simp add: matching_targets_Nil)
next
  case (Cons p ps)
  obtain a b where p: "p = (a, b)" by (cases p)
  show ?case
  proof (cases "a = key")
    case False
    then show ?thesis
      unfolding p by (simp add: Cons.IH matching_targets_Cons)
  next
    case True
    show ?thesis
    proof (cases "split_key b")
      case None
      with True show ?thesis
        unfolding p by (simp add: Cons.IH matching_targets_Cons)
    next
      case (Some lt)
      obtain lb tb where lt: "lt = (lb, tb)" by (cases lt)
      show ?thesis
      proof (cases "sel lb = None")
        case False
        with True Some lt show ?thesis
          unfolding p by (auto simp: Cons.IH matching_targets_Cons)
      next
        case sel: True
        have step: "handle_inclusion_chains ((a, b) # ps) key sel forced layer
                    = handle_inclusion_chains ps key sel (forced(lb \<mapsto> tb)) layer"
          using True Some lt sel by simp
        show ?thesis
          unfolding p step Cons.IH
          using True Some lt sel
          by (cases "lb = layer") (auto simp: matching_targets_Cons split: list.splits)
      qed
    qed
  qed
qed

lemma split_key_mk_key: "split_key a = Some (la, ta) \<Longrightarrow> mk_key la ta = a"
proof -
  assume h: "split_key a = Some (la, ta)"
  then have c: "CHR '':'' \<in> set a" and la: "la = takeWhile (\<lambda>c. c \<noteq> CHR '':'') a"
    and ta: "ta = tl (dropWhile (\<lambda>c. c \<noteq> CHR '':'') a)"
    by (auto simp: split_key_def split: if_splits)
  from c have ne: "dropWhile (\<lambda>c. c \<noteq> CHR '':'') a \<noteq> []" by (simp add: dropWhile_eq_Nil_conv)
  then have "hd (dropWhile (\<lambda>c. c \<noteq> CHR '':'') a) = CHR '':''"
    using hd_dropWhile[of "\<lambda>c. c \<noteq> CHR '':''" a] by simp
  with ne have "dropWhile (\<lambda>c. c \<noteq> CHR '':'') a = CHR '':'' # ta"
    unfolding ta by (metis list.collapse)
  then have "takeWhile (\<lambda>c. c \<noteq> CHR '':'') a @ CHR '':'' # ta = a"
    by (metis takeWhile_dropWhile_id)
  then show ?thesis by (simp add: mk_key_def la)
qed

lemma required_trait_for_layer_Some:
  "required_trait_for_layer ps sk layer = Some tb \<Longrightarrow>
   \<exists>a b. (a, b) \<in> set ps \<and> a \<in> set sk \<and> split_key b = Some (layer, tb)"
proof (induction ps)
  case Nil
  then show ?case by simp
next
  case (Cons p ps)
  obtain a b where p: "p = (a, b)" by (cases p)
  show ?case
  proof (cases "\<exists>la ta lb. split_key a = Some (la, ta) \<and> split_key b = Some (lb, tb)
                    \<and> mk_key la ta \<in> set sk \<and> lb = layer")
    case True
    then obtain la ta where "split_key a = Some (la, ta)" "split_key b = Some (layer, tb)"
      "mk_key la ta \<in> set sk" by blast
    then have "(a, b) \<in> set (p # ps) \<and> a \<in> set sk \<and> split_key b = Some (layer, tb)"
      using split_key_mk_key p by auto
    then show ?thesis by blast
  next
    case False
    with Cons.prems have "required_trait_for_layer ps sk layer = Some tb"
      unfolding p by (auto split: option.splits if_splits)
    from Cons.IH[OF this] show ?thesis by auto
  qed
qed




lemma selected_register:
  "selected (register_selection rules s layer t) = (selected s)(layer \<mapsto> t)"
  by (simp add: register_selection_def Let_def)

lemma selected_keys_register:
  "selected_keys (register_selection rules s layer t) = selected_keys s @ [mk_key layer t]"
  by (simp add: register_selection_def Let_def)

lemma forced_register:
  "forced_selection (register_selection rules s layer t) =
     handle_inclusion_chains (include_pairs rules) (mk_key layer t) ((selected s)(layer \<mapsto> t))
       (forced_selection s)"
  by (simp add: register_selection_def Let_def)


lemma select_layer_cases:
  "select_layer rules traits d s layer = s
   \<or> (\<exists>required. select_layer rules traits d s layer
          = s\<lparr>sel_log := sel_log s @ [InclusionNotFound layer required]\<rparr>)
   \<or> (\<exists>t. select_layer rules traits d s layer = register_selection rules s layer t)"
  unfolding select_layer_def Let_def
  by (auto split: option.splits)







text \<open>
  Claim C4, as amended. In the scan of the include pairs that follows a selection, a
  matching pair sets \<open>forced_selection\<close> for its target layer whenever that layer is not
  in \<open>selected\<close>, whether or not the layer is forced already. So for a layer not in
  \<open>selected\<close> the trait of the last matching pair stands, and the entry is unchanged when
  no pair matches or when the layer is in \<open>selected\<close>.
\<close>

theorem C4_forcing_last_match_wins:
  "handle_inclusion_chains ps key sel forced layer =
     (if sel layer = None
      then (case matching_targets ps key layer of
              [] \<Rightarrow> forced layer
            | t # ts \<Rightarrow> Some (last (t # ts)))
      else forced layer)"
  by (rule handle_inclusion_chains_eq)

theorem C4_forcing_last_match_wins_witness:
  "handle_inclusion_chains [(''A:Red'', ''B:Blue''), (''A:Red'', ''B:Green'')] ''A:Red''
     [''A'' \<mapsto> ''Red''] Map.empty ''B'' = Some ''Green''"
  by (subst C4_forcing_last_match_wins) (simp add: matching_targets_def split_key_def)

text \<open>
  Claim C4 as stated fails: with \<open>Blue\<close> already forced for layer \<open>B\<close>, a later matching
  pair for \<open>B\<close> replaces it by \<open>Green\<close>.
\<close>

theorem C4_forcing_counterexample:
  "handle_inclusion_chains [(''A:Red'', ''B:Green'')] ''A:Red''
     [''A'' \<mapsto> ''Red''] [''B'' \<mapsto> ''Blue''] ''B'' = Some ''Green''
   \<and> handle_inclusion_chains [(''A:Red'', ''B:Blue'')] ''A:Red''
       [''A'' \<mapsto> ''Red''] Map.empty ''B'' = Some ''Blue''
   \<and> handle_inclusion_chains [(''A:Red'', ''B:Blue''), (''A:Red'', ''B:Green'')] ''A:Red''
       [''A'' \<mapsto> ''Red''] Map.empty ''B'' \<noteq> Some ''Blue''"
  by (simp add: split_key_def)



section \<open>Selection engine: rarities and exclusions\<close>




lemma matching_targets_source:
  "t \<in> set (matching_targets ps key layer) \<Longrightarrow>
   \<exists>b. (key, b) \<in> set ps \<and> split_key b = Some (layer, t)"
proof (induction ps)
  case Nil
  then show ?case by (simp add: matching_targets_Nil)
next
  case (Cons p ps)
  obtain a b where ab: "p = (a, b)" by (cases p)
  show ?case
  proof (cases "key = a \<and> (\<exists>tb. split_key b = Some (layer, tb))")
    case True
    then obtain tb where tb: "split_key b = Some (layer, tb)" and ka: "key = a" by blast
    then have eq: "matching_targets (p # ps) key layer = tb # matching_targets ps key layer"
      by (simp add: ab matching_targets_Cons)
    from Cons.prems have "t = tb \<or> t \<in> set (matching_targets ps key layer)"
      unfolding eq by simp
    then show ?thesis
    proof
      assume "t = tb"
      with tb ka ab show ?thesis by auto
    next
      assume "t \<in> set (matching_targets ps key layer)"
      from Cons.IH[OF this] show ?thesis by auto
    qed
  next
    case False
    then have eq: "matching_targets (p # ps) key layer = matching_targets ps key layer"
      by (cases "split_key b") (auto simp: ab matching_targets_Cons)
    from Cons.prems have "t \<in> set (matching_targets ps key layer)" unfolding eq .
    from Cons.IH[OF this] show ?thesis by auto
  qed
qed

lemma handle_inclusion_chains_dom:
  assumes "layer \<in> dom (handle_inclusion_chains ps key sel forced)"
  shows "layer \<in> dom forced \<or> (\<exists>b tb. (key, b) \<in> set ps \<and> split_key b = Some (layer, tb))"
proof (cases "layer \<in> dom forced")
  case True
  then show ?thesis by simp
next
  case False
  with assms have "matching_targets ps key layer \<noteq> []"
    by (auto simp: handle_inclusion_chains_eq dom_def split: if_splits list.splits)
  then obtain t where "t \<in> set (matching_targets ps key layer)"
    by (cases "matching_targets ps key layer") auto
  from matching_targets_source[OF this] show ?thesis by blast
qed

lemma is_excluded_by_pairs_conflicting:
  "\<not> is_excluded_by_pairs c sel_keys (exclude_pairs rules) \<Longrightarrow> sk \<in> set sel_keys \<Longrightarrow>
   \<not> conflicting rules c sk"
  unfolding is_excluded_by_pairs_def conflicting_def list_ex_iff
  by (auto split: if_splits)

text \<open>How one iteration of the layer loop ends, with what is known in each case.\<close>

lemma select_layer_outcomes [case_names unchanged warned forced required weighted]:
  obtains
    (unchanged) "select_layer rules traits d s layer = s"
  | (warned) required where
      "select_layer rules traits d s layer = s\<lparr>sel_log := sel_log s @ [InclusionNotFound layer required]\<rparr>"
  | (forced) t where "forced_selection s layer = Some t"
      "select_layer rules traits d s layer = register_selection rules s layer t"
  | (required) t where "forced_selection s layer = None"
      "required_trait_for_layer (include_pairs rules) (selected_keys s) layer = Some t"
      "select_layer rules traits d s layer = register_selection rules s layer t"
  | (weighted) t where "forced_selection s layer = None"
      "\<not> layer_skipped (layer_rarity rules layer) False d"
      "\<not> is_excluded_by_pairs (mk_key layer t) (selected_keys s) (exclude_pairs rules)"
      "select_layer rules traits d s layer = register_selection rules s layer t"
proof (cases "select_layer rules traits d s layer = s
      \<or> (\<exists>required. select_layer rules traits d s layer
            = s\<lparr>sel_log := sel_log s @ [InclusionNotFound layer required]\<rparr>)")
  case True
  then show ?thesis using unchanged warned by blast
next
  case False
  define options where "options = (case map_of traits layer of None \<Rightarrow> [] | Some ts \<Rightarrow> ts)"
  from False have ne: "options \<noteq> []"
    and ns: "\<not> layer_skipped (layer_rarity rules layer) (forced_selection s layer \<noteq> None) d"
    unfolding options_def by (auto simp: select_layer_def Let_def)
  show ?thesis
  proof (cases "forced_selection s layer")
    case (Some t)
    then have "select_layer rules traits d s layer = register_selection rules s layer t"
      using ne ns unfolding options_def by (simp add: select_layer_def Let_def)
    with Some show ?thesis by (rule forced)
  next
    case None
    show ?thesis
    proof (cases "required_trait_for_layer (include_pairs rules) (selected_keys s) layer")
      case (Some t)
      with None False ne ns
      have "select_layer rules traits d s layer = register_selection rules s layer t"
        unfolding options_def by (auto simp: select_layer_def Let_def split: if_splits)
      with None Some show ?thesis by (rule required)
    next
      case rn: None
      let ?vo = "viable_opts rules (selected_keys s) layer options"
      let ?vw = "viable_wts rules (selected_keys s) layer options"
      from False None rn ne ns obtain t where t: "weighted_choice ?vo ?vw d = Some t"
        and sl: "select_layer rules traits d s layer = register_selection rules s layer t"
        unfolding options_def
        by (auto simp: select_layer_def Let_def split: if_splits option.splits)
      from weighted_choice_member[OF t]
      have "\<not> is_excluded_by_pairs (mk_key layer t) (selected_keys s) (exclude_pairs rules)"
        by (simp add: viable_opts_def)
      moreover from ns None have "\<not> layer_skipped (layer_rarity rules layer) False d" by simp
      ultimately show ?thesis using None sl by (intro weighted[of t]) auto
    qed
  qed
qed


lemma required_trait_is_target:
  "required_trait_for_layer (include_pairs rules) sel_keys layer = Some t \<Longrightarrow>
   layer \<in> include_targets rules"
  unfolding include_targets_def using required_trait_for_layer_Some by blast

lemma register_forced_targets:
  assumes "dom (forced_selection s) \<subseteq> include_targets rules"
  shows "dom (forced_selection (register_selection rules s layer t)) \<subseteq> include_targets rules"
proof
  fix L
  assume "L \<in> dom (forced_selection (register_selection rules s layer t))"
  then have "L \<in> dom (forced_selection s)
      \<or> (\<exists>b tb. (mk_key layer t, b) \<in> set (include_pairs rules) \<and> split_key b = Some (L, tb))"
    unfolding forced_register by (rule handle_inclusion_chains_dom)
  with assms show "L \<in> include_targets rules" unfolding include_targets_def by blast
qed








text \<open>
  Claim C6 at its failing input. The layer \<open>Hat\<close> has merged rarity 0 and no inclusion
  pair exists, \<^verbatim>\<open>random.random()\<close> returns 0.0, a value of [0,1): the test
  \<^verbatim>\<open>0.0 > 0 / 100.0\<close> of line 1069 is false, the layer is not skipped, and the edition is
  accepted with \<open>Hat\<close> among its attributes.
\<close>

theorem C6_rarity_zero_present_at_draw_zero:
  "layer_rarity (merged zero_env zero_config) ''Hat'' = 0
   \<and> include_pairs (merged zero_env zero_config) = []
   \<and> valid_draw (draws zero_env 1 0)
   \<and> selected (edition_selection zero_env (merged zero_env zero_config)
                 (final_layer_order zero_env zero_config) 1) ''Hat'' = Some ''Cap''
   \<and> map md_attributes (metadata (snd (run_generation zero_env zero_config 1)))
       = [[(''Hat'', ''Cap'')]]"
  by code_simp




lemma register_exclusions_respected:
  assumes inv: "exclusions_respected rules s"
    and ok: "layer \<in> include_targets rules
             \<or> \<not> is_excluded_by_pairs (mk_key layer t) (selected_keys s) (exclude_pairs rules)"
  shows "exclusions_respected rules (register_selection rules s layer t)"
  unfolding exclusions_respected_def
proof (intro conjI allI impI)
  from inv have "dom (forced_selection s) \<subseteq> include_targets rules"
    by (simp add: exclusions_respected_def)
  then show "dom (forced_selection (register_selection rules s layer t)) \<subseteq> include_targets rules"
    by (rule register_forced_targets)
next
  fix l t'
  assume "selected (register_selection rules s layer t) l = Some t'"
  then have "(l = layer \<and> t' = t) \<or> selected s l = Some t'"
    by (auto simp: selected_register split: if_splits)
  with inv show "mk_key l t' \<in> set (selected_keys (register_selection rules s layer t))"
    by (auto simp: selected_keys_register exclusions_respected_def)
next
  fix l1 t1 l2 t2
  assume h: "selected (register_selection rules s layer t) l1 = Some t1
           \<and> selected (register_selection rules s layer t) l2 = Some t2 \<and> l1 \<noteq> l2
           \<and> l1 \<notin> include_targets rules \<and> l2 \<notin> include_targets rules"
  have sym: "conflicting rules a b = conflicting rules b a" for a b
    by (auto simp: conflicting_def)
  have new: "\<not> conflicting rules (mk_key layer t) (mk_key l' t')"
    if "layer \<notin> include_targets rules" "selected s l' = Some t'" for l' t'
  proof -
    from that ok have "\<not> is_excluded_by_pairs (mk_key layer t) (selected_keys s) (exclude_pairs rules)"
      by simp
    moreover from inv that have "mk_key l' t' \<in> set (selected_keys s)"
      by (simp add: exclusions_respected_def)
    ultimately show ?thesis by (rule is_excluded_by_pairs_conflicting)
  qed
  show "\<not> conflicting rules (mk_key l1 t1) (mk_key l2 t2)"
  proof (cases "l1 = layer")
    case True
    with h have "t1 = t" "selected s l2 = Some t2" "layer \<notin> include_targets rules"
      by (auto simp: selected_register)
    with new[of l2 t2] True show ?thesis by simp
  next
    case l1: False
    show ?thesis
    proof (cases "l2 = layer")
      case True
      with h l1 have "t2 = t" "selected s l1 = Some t1" "layer \<notin> include_targets rules"
        by (auto simp: selected_register)
      with new[of l1 t1] True show ?thesis by (simp add: sym[of "mk_key l1 t1"])
    next
      case False
      with h l1 have "selected s l1 = Some t1" "selected s l2 = Some t2"
        by (auto simp: selected_register)
      with inv h show ?thesis unfolding exclusions_respected_def by blast
    qed
  qed
qed

lemma select_layer_exclusions_respected:
  assumes inv: "exclusions_respected rules s"
  shows "exclusions_respected rules (select_layer rules traits d s layer)"
proof (cases rule: select_layer_outcomes[where rules=rules and traits=traits and d=d and s=s and layer=layer])
  case unchanged
  with inv show ?thesis by simp
next
  case (warned required)
  with inv show ?thesis by (simp add: exclusions_respected_def)
next
  case (forced t)
  from inv forced(1) have "layer \<in> include_targets rules"
    by (auto simp: exclusions_respected_def dom_def)
  with inv show ?thesis unfolding forced(2) by (intro register_exclusions_respected) auto
next
  case (required t)
  from required_trait_is_target[OF required(2)] inv show ?thesis
    unfolding required(3) by (intro register_exclusions_respected) auto
next
  case (weighted t)
  with inv show ?thesis by (simp add: register_exclusions_respected)
qed

lemma walk_layers_exclusions_respected:
  "exclusions_respected rules s \<Longrightarrow> exclusions_respected rules (walk_layers rules traits ds s layers)"
  by (induction layers arbitrary: s ds) (simp_all add: select_layer_exclusions_respected)

text \<open>
  What holds of an exclusion pair: two layers that no inclusion pair targets never hold
  both keys of the pair. Their traits come from the weighted choice, which filters the
  candidates against the keys selected so far.
\<close>

lemma exclusion_respected_outside_inclusion_targets:
  assumes "selected (walk_layers rules traits ds empty_selection layers) l1 = Some t1"
    and "selected (walk_layers rules traits ds empty_selection layers) l2 = Some t2"
    and "l1 \<noteq> l2" and "l1 \<notin> include_targets rules" and "l2 \<notin> include_targets rules"
  shows "(mk_key l1 t1, mk_key l2 t2) \<notin> set (exclude_pairs rules)"
proof -
  have "exclusions_respected rules empty_selection"
    by (simp add: exclusions_respected_def empty_selection_def)
  then have "exclusions_respected rules (walk_layers rules traits ds empty_selection layers)"
    by (rule walk_layers_exclusions_respected)
  with assms have "\<not> conflicting rules (mk_key l1 t1) (mk_key l2 t2)"
    unfolding exclusions_respected_def by blast
  then show ?thesis by (simp add: conflicting_def)
qed

text \<open>
  Claim C3 at its failing input. \<open>Body:Robot\<close> forces \<open>Eyes:Laser\<close>; \<open>Hat:Crown\<close> is chosen
  by weighted choice before the layer \<open>Eyes\<close> is reached; the forced trait is registered
  without the exclusion test, and the accepted edition holds both keys of the exclusion
  pair \<open>(Hat:Crown, Eyes:Laser)\<close>.
\<close>

theorem C3_forced_trait_ignores_exclusion:
  "exclude_pairs (merged conflict_env conflict_config) = [(''Hat:Crown'', ''Eyes:Laser'')]
   \<and> selected (edition_selection conflict_env (merged conflict_env conflict_config)
                 (final_layer_order conflict_env conflict_config) 1) ''Hat'' = Some ''Crown''
   \<and> selected (edition_selection conflict_env (merged conflict_env conflict_config)
                 (final_layer_order conflict_env conflict_config) 1) ''Eyes'' = Some ''Laser''
   \<and> log_lines (snd (run_generation conflict_env conflict_config 1)) = [Generated 1]
   \<and> map md_attributes (metadata (snd (run_generation conflict_env conflict_config 1)))
       = [[(''Body'', ''Robot''), (''Hat'', ''Crown''), (''Eyes'', ''Laser'')]]"
  by code_simp

section \<open>Orchestrator: properties\<close>

lemma outcome_numbers_append: "outcome_numbers (xs @ ys) = outcome_numbers xs @ outcome_numbers ys"
  by (simp add: outcome_numbers_def)

lemma generated_numbers_append: "generated_numbers (xs @ ys) = generated_numbers xs @ generated_numbers ys"
  by (simp add: generated_numbers_def)

lemma duplicate_numbers_append: "duplicate_numbers (xs @ ys) = duplicate_numbers xs @ duplicate_numbers ys"
  by (simp add: duplicate_numbers_def)

lemma error_numbers_append: "error_numbers (xs @ ys) = error_numbers xs @ error_numbers ys"
  by (simp add: error_numbers_def)

lemma only_warnings_numbers:
  assumes "only_warnings lg"
  shows "generated_numbers lg = []" "duplicate_numbers lg = []" "error_numbers lg = []"
    "outcome_numbers lg = []"
proof -
  from assms have a: "\<forall>m \<in> set lg. outcome_number m = None"
    unfolding only_warnings_def outcome_numbers_def by (auto split: option.splits)
  have b: "\<forall>m \<in> set lg. (\<forall>n. m \<noteq> Generated n \<and> m \<noteq> DuplicateAt n \<and> m \<noteq> ErrorOn n)"
  proof
    fix m assume "m \<in> set lg"
    with a have "outcome_number m = None" by simp
    then show "\<forall>n. m \<noteq> Generated n \<and> m \<noteq> DuplicateAt n \<and> m \<noteq> ErrorOn n" by (cases m) auto
  qed
  show "generated_numbers lg = []"
    unfolding generated_numbers_def using b by (auto split: log_msg.splits)
  show "duplicate_numbers lg = []"
    unfolding duplicate_numbers_def using b by (auto split: log_msg.splits)
  show "error_numbers lg = []"
    unfolding error_numbers_def using b by (auto split: log_msg.splits)
  show "outcome_numbers lg = []" using assms by (simp add: only_warnings_def)
qed

lemma only_warnings_append: "only_warnings (xs @ ys) = (only_warnings xs \<and> only_warnings ys)"
  by (simp add: only_warnings_def outcome_numbers_append)

lemma sel_log_register: "sel_log (register_selection rules s layer t) = sel_log s"
  by (simp add: register_selection_def Let_def)

lemma select_layer_only_warnings:
  assumes "only_warnings (sel_log s)"
  shows "only_warnings (sel_log (select_layer rules traits d s layer))"
proof -
  consider "select_layer rules traits d s layer = s"
    | required where "select_layer rules traits d s layer
          = s\<lparr>sel_log := sel_log s @ [InclusionNotFound layer required]\<rparr>"
    | t where "select_layer rules traits d s layer = register_selection rules s layer t"
    using select_layer_cases[of rules traits d s layer] by blast
  then show ?thesis
  proof cases
    case 1
    with assms show ?thesis by simp
  next
    case 2
    with assms show ?thesis by (simp add: only_warnings_def outcome_numbers_def)
  next
    case 3
    with assms show ?thesis by (simp add: sel_log_register)
  qed
qed

lemma walk_layers_only_warnings:
  "only_warnings (sel_log s) \<Longrightarrow> only_warnings (sel_log (walk_layers rules traits ds s layers))"
  by (induction layers arbitrary: s ds) (simp_all add: select_layer_only_warnings)

lemma edition_selection_only_warnings:
  "only_warnings (sel_log (edition_selection e rules lo n))"
  unfolding edition_selection_def
  by (rule walk_layers_only_warnings) (simp add: empty_selection_def only_warnings_def outcome_numbers_def)

lemma merge_only_warnings: "only_warnings (snd (merge_mapping_sets cfg sf))"
proof -
  have "only_warnings (read_warning sf)"
    by (cases sf) (simp_all add: read_warning_def only_warnings_def outcome_numbers_def)
  moreover have "only_warnings (absent_warnings saved names)" for saved names
    unfolding only_warnings_def outcome_numbers_def absent_warnings_def
    by (induction names) (auto split: option.splits saved_value.splits)
  ultimately show ?thesis
    by (simp add: merge_mapping_sets_def merge_loop_present only_warnings_append)
qed

text \<open>The six ways through the body of the try.\<close>

lemma try_body_new_image_raises:
  "new_image_raises e n \<Longrightarrow> try_body e cfg rules lo st n = (Raised, st)"
  by (simp add: try_body_def)

lemma try_body_duplicate:
  assumes "\<not> new_image_raises e n" and "edition_dna e rules lo n \<in> generated_dna st"
  shows "try_body e cfg rules lo st n =
     (if progress_raises_in_try e n then Raised else Continued,
      st\<lparr>duplicates := duplicates st + 1,
         log_lines := log_lines st @ sel_log (edition_selection e rules lo n) @ [DuplicateAt n]\<rparr>)"
  using assms by (simp add: try_body_def edition_dna_def Let_def)

lemma try_body_compositing_raises:
  assumes "\<not> new_image_raises e n" and "edition_dna e rules lo n \<notin> generated_dna st"
    and "compositing_raises e n"
  shows "try_body e cfg rules lo st n =
     (Raised, st\<lparr>log_lines := log_lines st @ sel_log (edition_selection e rules lo n)\<rparr>)"
  using assms by (simp add: try_body_def edition_dna_def Let_def)

lemma try_body_image_save_raises:
  assumes "\<not> new_image_raises e n" and "edition_dna e rules lo n \<notin> generated_dna st"
    and "\<not> compositing_raises e n" and "image_save_raises e n"
  shows "try_body e cfg rules lo st n =
     (Raised, st\<lparr>generated_dna := insert (edition_dna e rules lo n) (generated_dna st),
                 log_lines := log_lines st @ sel_log (edition_selection e rules lo n)\<rparr>)"
  using assms by (simp add: try_body_def edition_dna_def Let_def)

lemma try_body_metadata_save_raises:
  assumes "\<not> new_image_raises e n" and "edition_dna e rules lo n \<notin> generated_dna st"
    and "\<not> compositing_raises e n" and "\<not> image_save_raises e n" and "metadata_save_raises e n"
  shows "try_body e cfg rules lo st n =
     (Raised, st\<lparr>generated_dna := insert (edition_dna e rules lo n) (generated_dna st),
                 images := images st @ [n],
                 log_lines := log_lines st @ sel_log (edition_selection e rules lo n)\<rparr>)"
  using assms by (simp add: try_body_def edition_dna_def Let_def)

lemma try_body_completed:
  assumes "\<not> new_image_raises e n" and "edition_dna e rules lo n \<notin> generated_dna st"
    and "\<not> compositing_raises e n" and "\<not> image_save_raises e n" and "\<not> metadata_save_raises e n"
  shows "try_body e cfg rules lo st n =
     (Completed,
      st\<lparr>generated_dna := insert (edition_dna e rules lo n) (generated_dna st),
         images := images st @ [n],
         metadata := metadata st @
            [\<lparr>md_collection = (case collection_name cfg of None \<Rightarrow> ''Collection'' | Some c \<Rightarrow> c),
              md_description = (case collection_description cfg of None \<Rightarrow> [] | Some c \<Rightarrow> c),
              md_attributes = attributes_of lo (selected (edition_selection e rules lo n)),
              md_edition = n\<rparr>],
         success := success st + 1,
         log_lines := log_lines st @ sel_log (edition_selection e rules lo n) @ [Generated n]\<rparr>)"
  using assms by (simp add: try_body_def edition_dna_def Let_def)


lemma process_edition_cases [case_names new_image duplicate duplicate_raised compositing image_save
    metadata_save completed]:
  fixes e cfg rules lo st n
  defines "D \<equiv> edition_dna e rules lo n"
  defines "W \<equiv> sel_log (edition_selection e rules lo n)"
  defines "st' \<equiv> snd (process_edition e cfg rules lo st n)"
  obtains
    (new_image) "new_image_raises e n"
      "st' = st\<lparr>errors := errors st + 1, log_lines := log_lines st @ [ErrorOn n]\<rparr>"
  | (duplicate) "\<not> new_image_raises e n" "D \<in> generated_dna st" "\<not> progress_raises_in_try e n"
      "st' = st\<lparr>duplicates := duplicates st + 1, log_lines := log_lines st @ W @ [DuplicateAt n]\<rparr>"
  | (duplicate_raised) "\<not> new_image_raises e n" "D \<in> generated_dna st" "progress_raises_in_try e n"
      "st' = st\<lparr>duplicates := duplicates st + 1, errors := errors st + 1,
                 log_lines := log_lines st @ W @ [DuplicateAt n, ErrorOn n]\<rparr>"
  | (compositing) "\<not> new_image_raises e n" "D \<notin> generated_dna st" "compositing_raises e n"
      "st' = st\<lparr>errors := errors st + 1, log_lines := log_lines st @ W @ [ErrorOn n]\<rparr>"
  | (image_save) "\<not> new_image_raises e n" "D \<notin> generated_dna st" "\<not> compositing_raises e n"
      "image_save_raises e n"
      "st' = st\<lparr>generated_dna := insert D (generated_dna st), errors := errors st + 1,
                 log_lines := log_lines st @ W @ [ErrorOn n]\<rparr>"
  | (metadata_save) "\<not> new_image_raises e n" "D \<notin> generated_dna st" "\<not> compositing_raises e n"
      "\<not> image_save_raises e n" "metadata_save_raises e n"
      "st' = st\<lparr>generated_dna := insert D (generated_dna st), errors := errors st + 1,
                 images := images st @ [n], log_lines := log_lines st @ W @ [ErrorOn n]\<rparr>"
  | (completed) "\<not> new_image_raises e n" "D \<notin> generated_dna st" "\<not> compositing_raises e n"
      "\<not> image_save_raises e n" "\<not> metadata_save_raises e n"
      "st' = st\<lparr>generated_dna := insert D (generated_dna st), success := success st + 1,
                 images := images st @ [n],
                 metadata := metadata st @
                   [\<lparr>md_collection = (case collection_name cfg of None \<Rightarrow> ''Collection'' | Some c \<Rightarrow> c),
                     md_description = (case collection_description cfg of None \<Rightarrow> [] | Some c \<Rightarrow> c),
                     md_attributes = attributes_of lo (selected (edition_selection e rules lo n)),
                     md_edition = n\<rparr>],
                 log_lines := log_lines st @ W @ [Generated n]\<rparr>"
proof (cases "new_image_raises e n")
  case True
  then have "st' = st\<lparr>errors := errors st + 1, log_lines := log_lines st @ [ErrorOn n]\<rparr>"
    unfolding st'_def by (simp add: process_edition_def try_body_new_image_raises Let_def)
  with True show ?thesis by (rule new_image)
next
  case ni: False
  show ?thesis
  proof (cases "D \<in> generated_dna st")
    case True
    then have d: "edition_dna e rules lo n \<in> generated_dna st" by (simp add: D_def)
    show ?thesis
    proof (cases "progress_raises_in_try e n")
      case False
      then have "st' = st\<lparr>duplicates := duplicates st + 1,
                           log_lines := log_lines st @ W @ [DuplicateAt n]\<rparr>"
        unfolding st'_def W_def by (simp add: process_edition_def try_body_duplicate[OF ni d])
      with ni True False show ?thesis by (rule duplicate)
    next
      case r: True
      then have "st' = st\<lparr>duplicates := duplicates st + 1, errors := errors st + 1,
                   log_lines := log_lines st @ W @ [DuplicateAt n, ErrorOn n]\<rparr>"
        unfolding st'_def W_def
        by (simp add: process_edition_def try_body_duplicate[OF ni d] Let_def)
      with ni True r show ?thesis by (rule duplicate_raised)
    qed
  next
    case nd: False
    then have d: "edition_dna e rules lo n \<notin> generated_dna st" by (simp add: D_def)
    show ?thesis
    proof (cases "compositing_raises e n")
      case True
      then have "st' = st\<lparr>errors := errors st + 1, log_lines := log_lines st @ W @ [ErrorOn n]\<rparr>"
        unfolding st'_def W_def
        by (simp add: process_edition_def try_body_compositing_raises[OF ni d] Let_def)
      with ni nd True show ?thesis by (rule compositing)
    next
      case nc: False
      show ?thesis
      proof (cases "image_save_raises e n")
        case True
        then have "st' = st\<lparr>generated_dna := insert D (generated_dna st), errors := errors st + 1,
                 log_lines := log_lines st @ W @ [ErrorOn n]\<rparr>"
          unfolding st'_def W_def D_def
          by (simp add: process_edition_def try_body_image_save_raises[OF ni d nc] Let_def)
        with ni nd nc True show ?thesis by (rule image_save)
      next
        case ns: False
        show ?thesis
        proof (cases "metadata_save_raises e n")
          case True
          then have "st' = st\<lparr>generated_dna := insert D (generated_dna st), errors := errors st + 1,
                 images := images st @ [n], log_lines := log_lines st @ W @ [ErrorOn n]\<rparr>"
            unfolding st'_def W_def D_def
            by (simp add: process_edition_def try_body_metadata_save_raises[OF ni d nc ns] Let_def)
          with ni nd nc ns True show ?thesis by (rule metadata_save)
        next
          case nm: False
          have "st' = st\<lparr>generated_dna := insert D (generated_dna st), success := success st + 1,
                 images := images st @ [n],
                 metadata := metadata st @
                   [\<lparr>md_collection = (case collection_name cfg of None \<Rightarrow> ''Collection'' | Some c \<Rightarrow> c),
                     md_description = (case collection_description cfg of None \<Rightarrow> [] | Some c \<Rightarrow> c),
                     md_attributes = attributes_of lo (selected (edition_selection e rules lo n)),
                     md_edition = n\<rparr>],
                 log_lines := log_lines st @ W @ [Generated n]\<rparr>"
            unfolding st'_def W_def D_def
            by (simp add: process_edition_def try_body_completed[OF ni d nc ns nm] Let_def)
          with ni nd nc ns nm show ?thesis by (rule completed)
        qed
      qed
    qed
  qed
qed


lemma run_loop_invariant:
  assumes "P st"
    and "\<And>st n. n \<in> set ns \<Longrightarrow> P st \<Longrightarrow> P (snd (process_edition e cfg rules lo st n))"
  shows "P (snd (run_loop e cfg rules lo st ns))"
  using assms
proof (induction ns arbitrary: st)
  case Nil
  then show ?case by simp
next
  case (Cons n ns)
  obtain r st' where pe: "process_edition e cfg rules lo st n = (r, st')"
    by (cases "process_edition e cfg rules lo st n")
  have P': "P st'" using Cons.prems(2)[of n st] Cons.prems(1) pe by simp
  show ?case
  proof (cases r)
    case None
    have "P (snd (run_loop e cfg rules lo st' ns))"
      using Cons.IH[OF P'] Cons.prems(2) by simp
    with pe None show ?thesis by simp
  next
    case (Some err)
    with pe P' show ?thesis by simp
  qed
qed

lemmas numbers_append = generated_numbers_append duplicate_numbers_append error_numbers_append
  outcome_numbers_append

lemma numbers_single:
  "generated_numbers [Generated n] = [n]" "generated_numbers [DuplicateAt n] = []"
  "generated_numbers [ErrorOn n] = []"
  "duplicate_numbers [Generated n] = []" "duplicate_numbers [DuplicateAt n] = [n]"
  "duplicate_numbers [ErrorOn n] = []"
  "error_numbers [Generated n] = []" "error_numbers [DuplicateAt n] = []"
  "error_numbers [ErrorOn n] = [n]"
  "outcome_numbers [Generated n] = [n]" "outcome_numbers [DuplicateAt n] = [n]"
  "outcome_numbers [ErrorOn n] = [n]"
  "generated_numbers [DuplicateAt n, ErrorOn n] = []"
  "duplicate_numbers [DuplicateAt n, ErrorOn n] = [n]"
  "error_numbers [DuplicateAt n, ErrorOn n] = [n]"
  by (simp_all add: generated_numbers_def duplicate_numbers_def error_numbers_def outcome_numbers_def)

lemmas sel_numbers = only_warnings_numbers [OF edition_selection_only_warnings]

lemma process_edition_persisted_distinct:
  assumes "persisted_distinct e rules lo st"
  shows "persisted_distinct e rules lo (snd (process_edition e cfg rules lo st n))"
proof (cases rule: process_edition_cases[where e=e and cfg=cfg and rules=rules and lo=lo and st=st and n=n])
  case new_image
  with assms show ?thesis
    by (simp add: persisted_distinct_def accepted_editions_def numbers_append numbers_single)
next
  case duplicate
  with assms show ?thesis
    by (simp add: persisted_distinct_def accepted_editions_def numbers_append numbers_single sel_numbers)
next
  case duplicate_raised
  with assms show ?thesis
    by (simp add: persisted_distinct_def accepted_editions_def numbers_append numbers_single sel_numbers)
next
  case compositing
  with assms show ?thesis
    by (simp add: persisted_distinct_def accepted_editions_def numbers_append numbers_single sel_numbers)
next
  case image_save
  with assms show ?thesis
    by (simp add: persisted_distinct_def accepted_editions_def numbers_append numbers_single sel_numbers)
next
  case metadata_save
  from assms metadata_save(2) have fresh:
    "\<forall>i \<in> set (images st). edition_dna e rules lo i \<noteq> edition_dna e rules lo n"
    unfolding persisted_distinct_def by auto
  from assms fresh show ?thesis
    unfolding metadata_save(6) persisted_distinct_def
    by (auto simp: accepted_editions_def numbers_append numbers_single sel_numbers)
next
  case completed
  from assms completed(2) have fresh:
    "\<forall>i \<in> set (images st). edition_dna e rules lo i \<noteq> edition_dna e rules lo n"
    unfolding persisted_distinct_def by auto
  from assms fresh show ?thesis
    unfolding completed(6) persisted_distinct_def
    by (auto simp: accepted_editions_def numbers_append numbers_single sel_numbers)
qed





lemma run_loop_persisted_distinct:
  "persisted_distinct e rules lo st \<Longrightarrow>
   persisted_distinct e rules lo (snd (run_loop e cfg rules lo st ns))"
  by (rule run_loop_invariant) (simp_all add: process_edition_persisted_distinct)







lemma run_generation_unfold:
  "run_generation e cfg N =
     (if makedirs_raises e then (Some MakedirsFailed, initial_state [])
      else run_loop e cfg (merged e cfg) (final_layer_order e cfg)
             (initial_state (snd (merge_mapping_sets cfg (saved_mappings e)))) [1..N])"
  by (simp add: run_generation_def merged_def split: prod.splits)

lemma initial_state_persisted_distinct:
  "only_warnings lg \<Longrightarrow> persisted_distinct e rules lo (initial_state lg)"
  by (simp add: persisted_distinct_def initial_state_def accepted_editions_def only_warnings_numbers)


lemma run_generation_persisted_distinct:
  "persisted_distinct e (merged e cfg) (final_layer_order e cfg) (snd (run_generation e cfg N))"
proof (cases "makedirs_raises e")
  case True
  then show ?thesis
    by (simp add: run_generation_unfold initial_state_persisted_distinct only_warnings_def
        outcome_numbers_def)
next
  case False
  then show ?thesis
    by (simp add: run_generation_unfold run_loop_persisted_distinct
        initial_state_persisted_distinct merge_only_warnings)
qed





text \<open>
  Claim C1. In every run (whatever the draws, the failures and the edition count, and
  whether or not the run is cut short), two distinct accepted editions have different
  DNA strings, and the log reports as generated exactly the accepted editions. An
  edition that reaches the duplicate check with its DNA already in the DNA set writes
  no image and no metadata, is not counted as a success, and is counted and logged as
  a duplicate.
\<close>

theorem C1_accepted_dna_distinct:
  "(\<forall>i \<in> set (accepted_editions (snd (run_generation e cfg N))).
      \<forall>j \<in> set (accepted_editions (snd (run_generation e cfg N))).
        i \<noteq> j \<longrightarrow>
        edition_dna e (merged e cfg) (final_layer_order e cfg) i
          \<noteq> edition_dna e (merged e cfg) (final_layer_order e cfg) j)
   \<and> generated_numbers (log_lines (snd (run_generation e cfg N)))
       = accepted_editions (snd (run_generation e cfg N))
   \<and> (\<forall>st n. \<not> new_image_raises e n \<and> edition_dna e rules lo n \<in> generated_dna st \<longrightarrow>
         images (snd (process_edition e cfg rules lo st n)) = images st
       \<and> metadata (snd (process_edition e cfg rules lo st n)) = metadata st
       \<and> success (snd (process_edition e cfg rules lo st n)) = success st
       \<and> duplicates (snd (process_edition e cfg rules lo st n)) = duplicates st + 1
       \<and> DuplicateAt n \<in> set (log_lines (snd (process_edition e cfg rules lo st n)))
       \<and> generated_numbers (log_lines (snd (process_edition e cfg rules lo st n)))
           = generated_numbers (log_lines st))"
proof (intro conjI allI impI)
  let ?st = "snd (run_generation e cfg N)"
  have inv: "persisted_distinct e (merged e cfg) (final_layer_order e cfg) ?st"
    by (rule run_generation_persisted_distinct)
  then show "\<forall>i \<in> set (accepted_editions ?st). \<forall>j \<in> set (accepted_editions ?st). i \<noteq> j \<longrightarrow>
        edition_dna e (merged e cfg) (final_layer_order e cfg) i
          \<noteq> edition_dna e (merged e cfg) (final_layer_order e cfg) j"
    unfolding persisted_distinct_def by blast
  from inv show "generated_numbers (log_lines ?st) = accepted_editions ?st"
    unfolding persisted_distinct_def by blast
next
  fix st :: run_state and n :: int
  assume h: "\<not> new_image_raises e n \<and> edition_dna e rules lo n \<in> generated_dna st"
  let ?st' = "snd (process_edition e cfg rules lo st n)"
  have "images ?st' = images st \<and> metadata ?st' = metadata st \<and> success ?st' = success st
      \<and> duplicates ?st' = duplicates st + 1 \<and> DuplicateAt n \<in> set (log_lines ?st')
      \<and> generated_numbers (log_lines ?st') = generated_numbers (log_lines st)"
    using h
    by (cases rule: process_edition_cases[where e=e and cfg=cfg and rules=rules and lo=lo and st=st and n=n])
       (simp_all add: numbers_append numbers_single sel_numbers)
  then show "images ?st' = images st" "metadata ?st' = metadata st" "success ?st' = success st"
    "duplicates ?st' = duplicates st + 1" "DuplicateAt n \<in> set (log_lines ?st')"
    "generated_numbers (log_lines ?st') = generated_numbers (log_lines st)"
    by blast+
qed

theorem C1_accepted_dna_distinct_witness:
  "accepted_editions (snd (run_generation plain_env example_config 3)) = [1, 2]
   \<and> edition_dna plain_env (merged plain_env example_config)
         (final_layer_order plain_env example_config) 1
       \<noteq> edition_dna plain_env (merged plain_env example_config)
           (final_layer_order plain_env example_config) 2"
proof -
  have acc: "accepted_editions (snd (run_generation plain_env example_config 3)) = [1, 2]"
    by code_simp
  have "\<forall>i \<in> set (accepted_editions (snd (run_generation plain_env example_config 3))).
          \<forall>j \<in> set (accepted_editions (snd (run_generation plain_env example_config 3))).
            i \<noteq> j \<longrightarrow>
            edition_dna plain_env (merged plain_env example_config)
                (final_layer_order plain_env example_config) i
              \<noteq> edition_dna plain_env (merged plain_env example_config)
                  (final_layer_order plain_env example_config) j"
    using C1_accepted_dna_distinct [of plain_env example_config 3] by (rule conjunct1)
  then show ?thesis unfolding acc by simp
qed






end
